theory Spec2Isabelle
  imports Complex_Main "HOL-Library.Monad_Syntax"
begin

section \<open>Multipole addressing macros of the second-order perturbation module\<close>

text \<open>
  The header \<^verbatim>\<open>perturbations2_macros.h\<close> consists of preprocessor macros that are
  expanded inside the equations of the second-order Boltzmann solver. Every macro refers
  to identifiers of the enclosing C scope (\<^verbatim>\<open>ppt\<close>, \<^verbatim>\<open>ppt2\<close>, \<^verbatim>\<open>ppr2\<close>,
  \<^verbatim>\<open>ppw2\<close>, \<^verbatim>\<open>y\<close>, \<^verbatim>\<open>dy\<close>, \<^verbatim>\<open>pvec_sources1\<close>, \<^verbatim>\<open>pvec_sources2\<close>).
  The embedding collects these identifiers in one record, the scope, and turns each
  macro into a function of the scope and of the macro's arguments.

  Conventions of the embedding:
  \<^item> an expression whose evaluation is undefined in C has no value: it is \<open>None\<close>.
    An expression with several parts is \<open>None\<close> as soon as one of the parts it
    evaluates is;
  \<^item> a C \<^verbatim>\<open>int\<close> is an integer between \<open>INT_MIN\<close> and \<open>INT_MAX\<close>, and
    \<^verbatim>\<open>abs(INT_MIN)\<close> is undefined. A sum or difference of ints that leaves the range
    is undefined in C; where the embedding forms the mathematical sum of a base offset
    and an index, a sum outside the range is outside every array as well, so that the
    expression has no value either way;
  \<^item> a C \<^verbatim>\<open>double\<close> is a value of the type \<open>double\<close> below: finite, infinite or
    not a number;
  \<^item> a C array is a list, and an array expression \<^verbatim>\<open>a[i]\<close> is evaluated by \<open>rd\<close>,
    which yields \<open>None\<close> when the index lies outside the array;
  \<^item> \<^verbatim>\<open>c ? a : b\<close> evaluates only the selected branch, as in C, while both operands
    of \<^verbatim>\<open>*\<close> are evaluated;
  \<^item> the preprocessor pastes the text of an argument into the body of a macro. Where
    the body parenthesises the parameter, or uses it as an array index, as the operand
    of a comparison or of an addition, or as the argument of \<^verbatim>\<open>abs\<close>, a sum or
    difference pasted there keeps its value, and the argument is a value of the
    embedding. The coupling macros use their second parameter bare, as the right operand
    of a subtraction: there the argument is an expression of the embedding (type
    \<open>arg\<close> below).
\<close>

subsection \<open>Arrays\<close>

definition rd :: "'a list \<Rightarrow> int \<Rightarrow> 'a option" where
  "rd a i = (if 0 \<le> i \<and> i < int (length a) then Some (a ! nat i) else None)"

definition wr :: "'a list \<Rightarrow> int \<Rightarrow> 'a \<Rightarrow> 'a list option" where
  "wr a i v = (if 0 \<le> i \<and> i < int (length a) then Some (a[nat i := v]) else None)"

subsection \<open>Integers\<close>

text \<open>The bounds of \<^verbatim>\<open>int\<close> (32 bits) and the library function \<^verbatim>\<open>abs\<close>.\<close>

definition INT_MIN :: int where
  "INT_MIN = - 2147483648"

definition INT_MAX :: int where
  "INT_MAX = 2147483647"

definition c_int :: "int \<Rightarrow> int option" where
  "c_int x = (if INT_MIN \<le> x \<and> x \<le> INT_MAX then Some x else None)"

definition c_abs :: "int \<Rightarrow> int option" where
  "c_abs m = (if m = INT_MIN then None else Some \<bar>m\<bar>)"

text \<open>
  An argument that is a sum or difference, as it is written: \<^verbatim>\<open>x\<close>, \<^verbatim>\<open>e + x\<close> or
  \<^verbatim>\<open>e - x\<close>, where \<^verbatim>\<open>x\<close> is a variable, a constant, a product or a parenthesised
  expression, given by its value. \<open>eval_arg\<close> is the value of the argument.
\<close>

datatype arg = Atom int | Plus arg int | Minus arg int

fun eval_arg :: "arg \<Rightarrow> int option" where
  "eval_arg (Atom x) = c_int x"
| "eval_arg (Plus e x) = eval_arg e \<bind> (\<lambda>v. c_int (v + x))"
| "eval_arg (Minus e x) = eval_arg e \<bind> (\<lambda>v. c_int (v - x))"

text \<open>
  The expression \<^verbatim>\<open>m-m1\<close> after the argument has been pasted for \<^verbatim>\<open>m1\<close>: C
  parses \<^verbatim>\<open>m-x+y\<close> as \<^verbatim>\<open>(m-x)+y\<close>.
\<close>

fun pasted_difference :: "int \<Rightarrow> arg \<Rightarrow> int option" where
  "pasted_difference m (Atom x) = c_int (m - x)"
| "pasted_difference m (Plus e x) = pasted_difference m e \<bind> (\<lambda>v. c_int (v + x))"
| "pasted_difference m (Minus e x) = pasted_difference m e \<bind> (\<lambda>v. c_int (v - x))"

subsection \<open>Floating-point numbers\<close>

text \<open>
  A \<^verbatim>\<open>double\<close> is finite, with its value, or infinite, or not a number. The signs of
  zero and of infinity play no role in the macros and are left out: \<open>Finite 0\<close> is the
  zero that \<^verbatim>\<open>== 0\<close> tests, and the constant \<^verbatim>\<open>0\<close> of a conditional expression whose
  other branch is a \<^verbatim>\<open>double\<close>.

  The product of two doubles follows IEEE 754: a product with a zero factor is zero
  when the other factor is finite and not a number when it is infinite; a product with
  a factor that is not a number is not a number; the product of two finite factors
  other than zero is the real product rounded, by the function \<open>rnd\<close>, to a double
  (which can be zero or infinite). The rounding is a parameter: the scope below carries
  it as \<open>rounding\<close>.
\<close>

datatype double = Finite real | Infinite | NaN

fun dmul :: "(real \<Rightarrow> double) \<Rightarrow> double \<Rightarrow> double \<Rightarrow> double" where
  "dmul rnd (Finite x) (Finite y) = (if x = 0 \<or> y = 0 then Finite 0 else rnd (x * y))"
| "dmul rnd (Finite x) Infinite = (if x = 0 then NaN else Infinite)"
| "dmul rnd Infinite (Finite y) = (if y = 0 then NaN else Infinite)"
| "dmul rnd Infinite Infinite = Infinite"
| "dmul rnd NaN y = NaN"
| "dmul rnd (Finite x) NaN = NaN"
| "dmul rnd Infinite NaN = NaN"

subsection \<open>The structures the macros read\<close>

text \<open>Fields of \<^verbatim>\<open>ppw2->pv\<close>: truncation orders and base offsets of the families.\<close>

record perturb2_vector =
  l_max_g :: int
  l_max_pol_g :: int
  l_max_ur :: int
  index_pt2_monopole_g :: int
  index_pt2_monopole_E :: int
  index_pt2_monopole_B :: int
  index_pt2_monopole_ur :: int
  index_pt2_monopole_b :: int
  index_pt2_monopole_cdm :: int

text \<open>
  Fields of \<^verbatim>\<open>ppt2\<close>. The coupling tables \<^verbatim>\<open>ppt2->c_minus\<close> etc. carry the suffix
  \<open>_tab\<close>, since the macros that read them have the same names. The flag
  \<^verbatim>\<open>has_polarization2\<close> is compared with \<^verbatim>\<open>_FALSE_\<close> only, and is a boolean here.
\<close>

record perturbs2 =
  lm_array :: "int list list"
  nlm_array :: "int list list list"
  lm_array_quad :: "int list list"
  has_polarization2 :: bool
  c_minus_tab :: "double list list"
  c_plus_tab :: "double list list"
  d_minus_tab :: "double list list"
  d_plus_tab :: "double list list"
  d_zero_tab :: "double list list"
  index_k1_debug :: int
  index_k2_debug :: int
  index_k3_debug :: int

text \<open>
  Field of \<^verbatim>\<open>ppr2\<close>: the column of each azimuthal number in the index tables.
  The macros index it with the azimuthal number itself, which can be negative, so
  \<^verbatim>\<open>index_m\<close> is a pointer into the middle of its block: it is modelled by the
  partial map from the indices inside the block to the cells' contents.
\<close>

record precision2 =
  index_m :: "int \<Rightarrow> int option"

text \<open>Fields of \<^verbatim>\<open>ppt\<close>: base offsets in the first-order source vectors.\<close>

record perturbs =
  index_qs_monopole_g :: int
  index_qs_monopole_E :: int
  index_qs_monopole_ur :: int

text \<open>Fields of \<^verbatim>\<open>ppw2\<close>.\<close>

record perturb2_workspace =
  pv :: perturb2_vector
  index_k1 :: int
  index_k2 :: int
  index_k3 :: int
  rotation_1 :: "double list"
  rotation_1_minus :: "double list"
  rotation_2 :: "double list"
  rotation_2_minus :: "double list"
  c_minus_product_12 :: "double list"
  c_minus_product_21 :: "double list"
  c_plus_product_12 :: "double list"
  c_plus_product_21 :: "double list"
  c_minus_product_11 :: "double list"
  c_minus_product_22 :: "double list"
  c_plus_product_11 :: "double list"
  c_plus_product_22 :: "double list"

text \<open>
  The identifiers in scope where the macros are expanded. The arrays \<^verbatim>\<open>y\<close> and
  \<^verbatim>\<open>dy\<close> are the fields \<open>y_buf\<close> and \<open>dy_buf\<close>. The scope also carries the
  rounding of the floating-point product.
\<close>

record scope =
  rounding :: "real \<Rightarrow> double"
  ppt :: perturbs
  ppt2 :: perturbs2
  ppr2 :: precision2
  ppw2 :: perturb2_workspace
  y_buf :: "double list"
  dy_buf :: "double list"
  pvec_sources1 :: "double list"
  pvec_sources2 :: "double list"

subsection \<open>Index macros\<close>

text \<open>\<^verbatim>\<open>#define lm(l,m) ppt2->lm_array[l][ppr2->index_m[m]]\<close>\<close>

definition lm :: "scope \<Rightarrow> int \<Rightarrow> int \<Rightarrow> int option" where
  "lm s l m =
     rd (lm_array (ppt2 s)) l \<bind> (\<lambda>row.
     index_m (ppr2 s) m \<bind> (\<lambda>c.
     rd row c))"

text \<open>\<^verbatim>\<open>#define nlm(n,l,m) ppt2->nlm_array[n][l][ppr2->index_m[m]]\<close>\<close>

definition nlm :: "scope \<Rightarrow> int \<Rightarrow> int \<Rightarrow> int \<Rightarrow> int option" where
  "nlm s n l m =
     rd (nlm_array (ppt2 s)) n \<bind> (\<lambda>plane.
     rd plane l \<bind> (\<lambda>row.
     index_m (ppr2 s) m \<bind> (\<lambda>c.
     rd row c)))"

text \<open>\<^verbatim>\<open>#define lm_quad(l,m) ppt2->lm_array_quad[l][m]\<close>\<close>

definition lm_quad :: "scope \<Rightarrow> int \<Rightarrow> int \<Rightarrow> int option" where
  "lm_quad s l m = rd (lm_array_quad (ppt2 s)) l \<bind> (\<lambda>row. rd row m)"

subsection \<open>Read accessors of the second-order moments\<close>

text \<open>
  The macros \<^verbatim>\<open>I\<close>, \<^verbatim>\<open>E\<close>, \<^verbatim>\<open>B\<close>, \<^verbatim>\<open>N\<close>, \<^verbatim>\<open>b\<close> and \<^verbatim>\<open>cdm\<close> carry the suffix
  \<open>_rd\<close>. Each is a conditional expression whose guard is written as in the source:
  the tests of a disjunction \<^verbatim>\<open>||\<close> are evaluated from left to right, and
  \<^verbatim>\<open>abs(m)\<close> is evaluated unless a test before it holds.
\<close>

definition I_rd :: "scope \<Rightarrow> int \<Rightarrow> int \<Rightarrow> double option" where
  "I_rd s l m =
     c_abs m \<bind> (\<lambda>a.
       if a > l \<or> l < 0 \<or> l > l_max_g (pv (ppw2 s)) then Some (Finite 0)
       else lm s l m \<bind> (\<lambda>off. rd (y_buf s) (index_pt2_monopole_g (pv (ppw2 s)) + off)))"

definition E_rd :: "scope \<Rightarrow> int \<Rightarrow> int \<Rightarrow> double option" where
  "E_rd s l m =
     (if has_polarization2 (ppt2 s) = False then Some (Finite 0)
      else c_abs m \<bind> (\<lambda>a.
        if a > l \<or> l < 0 \<or> l > l_max_pol_g (pv (ppw2 s)) then Some (Finite 0)
        else lm s l m \<bind> (\<lambda>off. rd (y_buf s) (index_pt2_monopole_E (pv (ppw2 s)) + off))))"

definition B_rd :: "scope \<Rightarrow> int \<Rightarrow> int \<Rightarrow> double option" where
  "B_rd s l m =
     (if has_polarization2 (ppt2 s) = False then Some (Finite 0)
      else c_abs m \<bind> (\<lambda>a.
        if a > l \<or> l < 0 \<or> l > l_max_pol_g (pv (ppw2 s)) then Some (Finite 0)
        else lm s l m \<bind> (\<lambda>off. rd (y_buf s) (index_pt2_monopole_B (pv (ppw2 s)) + off))))"

definition N_rd :: "scope \<Rightarrow> int \<Rightarrow> int \<Rightarrow> double option" where
  "N_rd s l m =
     c_abs m \<bind> (\<lambda>a.
       if a > l \<or> l > l_max_ur (pv (ppw2 s)) then Some (Finite 0)
       else lm s l m \<bind> (\<lambda>off. rd (y_buf s) (index_pt2_monopole_ur (pv (ppw2 s)) + off)))"

definition b_rd :: "scope \<Rightarrow> int \<Rightarrow> int \<Rightarrow> int \<Rightarrow> double option" where
  "b_rd s n l m =
     c_abs m \<bind> (\<lambda>a.
       if a > l \<or> l < 0 then Some (Finite 0)
       else nlm s n l m \<bind> (\<lambda>off. rd (y_buf s) (index_pt2_monopole_b (pv (ppw2 s)) + off)))"

definition cdm_rd :: "scope \<Rightarrow> int \<Rightarrow> int \<Rightarrow> int \<Rightarrow> double option" where
  "cdm_rd s n l m =
     c_abs m \<bind> (\<lambda>a.
       if a > l \<or> l < 0 then Some (Finite 0)
       else nlm s n l m \<bind> (\<lambda>off. rd (y_buf s) (index_pt2_monopole_cdm (pv (ppw2 s)) + off)))"

subsection \<open>Rotation coefficients\<close>

text \<open>
  \<^verbatim>\<open>#define rot_1(l,m) ( (((l) < 0) || (abs(m)>(l))) ? 0 : ( (m) < 0 ?\<close>
  \<^verbatim>\<open>ppw2->rotation_1_minus[lm_quad(l,abs(m))] : ppw2->rotation_1[lm_quad(l,m)]))\<close>:
  the test \<^verbatim>\<open>(l) < 0\<close> comes first, and \<^verbatim>\<open>abs(m)\<close> is evaluated only when it fails.
\<close>

definition rot_1 :: "scope \<Rightarrow> int \<Rightarrow> int \<Rightarrow> double option" where
  "rot_1 s l m =
     (if l < 0 then Some (Finite 0)
      else c_abs m \<bind> (\<lambda>a.
        if a > l then Some (Finite 0)
        else if m < 0 then c_abs m \<bind> (\<lambda>a'. lm_quad s l a' \<bind> rd (rotation_1_minus (ppw2 s)))
        else lm_quad s l m \<bind> rd (rotation_1 (ppw2 s))))"

definition rot_2 :: "scope \<Rightarrow> int \<Rightarrow> int \<Rightarrow> double option" where
  "rot_2 s l m =
     (if l < 0 then Some (Finite 0)
      else c_abs m \<bind> (\<lambda>a.
        if a > l then Some (Finite 0)
        else if m < 0 then c_abs m \<bind> (\<lambda>a'. lm_quad s l a' \<bind> rd (rotation_2_minus (ppw2 s)))
        else lm_quad s l m \<bind> rd (rotation_2 (ppw2 s))))"

subsection \<open>Write accessors of the derivatives\<close>

text \<open>
  \<^verbatim>\<open>#define dI(l,m) dy[ppw2->pv->index_pt2_monopole_g + lm(l,m)]\<close> and its siblings
  expand to an element of \<^verbatim>\<open>dy\<close>; the equations assign to it. The function \<open>dI\<close>
  is the assignment \<^verbatim>\<open>dI(l,m) = v\<close>: it returns the scope after the store, or
  \<open>None\<close> when the index table is read, or \<^verbatim>\<open>dy\<close> is written, out of bounds.
\<close>

definition assign_dy :: "scope \<Rightarrow> int \<Rightarrow> double \<Rightarrow> scope option" where
  "assign_dy s i v = wr (dy_buf s) i v \<bind> (\<lambda>d. Some (s\<lparr>dy_buf := d\<rparr>))"

definition dI :: "scope \<Rightarrow> int \<Rightarrow> int \<Rightarrow> double \<Rightarrow> scope option" where
  "dI s l m v = lm s l m \<bind> (\<lambda>off. assign_dy s (index_pt2_monopole_g (pv (ppw2 s)) + off) v)"

definition dE :: "scope \<Rightarrow> int \<Rightarrow> int \<Rightarrow> double \<Rightarrow> scope option" where
  "dE s l m v = lm s l m \<bind> (\<lambda>off. assign_dy s (index_pt2_monopole_E (pv (ppw2 s)) + off) v)"

definition dB :: "scope \<Rightarrow> int \<Rightarrow> int \<Rightarrow> double \<Rightarrow> scope option" where
  "dB s l m v = lm s l m \<bind> (\<lambda>off. assign_dy s (index_pt2_monopole_B (pv (ppw2 s)) + off) v)"

definition dN :: "scope \<Rightarrow> int \<Rightarrow> int \<Rightarrow> double \<Rightarrow> scope option" where
  "dN s l m v = lm s l m \<bind> (\<lambda>off. assign_dy s (index_pt2_monopole_ur (pv (ppw2 s)) + off) v)"

definition db :: "scope \<Rightarrow> int \<Rightarrow> int \<Rightarrow> int \<Rightarrow> double \<Rightarrow> scope option" where
  "db s n l m v =
     nlm s n l m \<bind> (\<lambda>off. assign_dy s (index_pt2_monopole_b (pv (ppw2 s)) + off) v)"

definition dcdm :: "scope \<Rightarrow> int \<Rightarrow> int \<Rightarrow> int \<Rightarrow> double \<Rightarrow> scope option" where
  "dcdm s n l m v =
     nlm s n l m \<bind> (\<lambda>off. assign_dy s (index_pt2_monopole_cdm (pv (ppw2 s)) + off) v)"

subsection \<open>Quadratic sources\<close>

text \<open>\<^verbatim>\<open>#define quad_coefficient 2\<close>\<close>

definition quad_coefficient :: int where
  "quad_coefficient = 2"

subsection \<open>First-order moments\<close>

definition I_1_tilde :: "scope \<Rightarrow> int \<Rightarrow> double option" where
  "I_1_tilde s l =
     (if l < 0 then Some (Finite 0) else rd (pvec_sources1 s) (index_qs_monopole_g (ppt s) + l))"

definition I_2_tilde :: "scope \<Rightarrow> int \<Rightarrow> double option" where
  "I_2_tilde s l =
     (if l < 0 then Some (Finite 0) else rd (pvec_sources2 s) (index_qs_monopole_g (ppt s) + l))"

definition E_1_tilde :: "scope \<Rightarrow> int \<Rightarrow> double option" where
  "E_1_tilde s l =
     (if l < 0 \<or> has_polarization2 (ppt2 s) = False then Some (Finite 0)
      else rd (pvec_sources1 s) (index_qs_monopole_E (ppt s) + l))"

definition E_2_tilde :: "scope \<Rightarrow> int \<Rightarrow> double option" where
  "E_2_tilde s l =
     (if l < 0 \<or> has_polarization2 (ppt2 s) = False then Some (Finite 0)
      else rd (pvec_sources2 s) (index_qs_monopole_E (ppt s) + l))"

definition N_1_tilde :: "scope \<Rightarrow> int \<Rightarrow> double option" where
  "N_1_tilde s l =
     (if l < 0 then Some (Finite 0) else rd (pvec_sources1 s) (index_qs_monopole_ur (ppt s) + l))"

definition N_2_tilde :: "scope \<Rightarrow> int \<Rightarrow> double option" where
  "N_2_tilde s l =
     (if l < 0 then Some (Finite 0) else rd (pvec_sources2 s) (index_qs_monopole_ur (ppt s) + l))"

text \<open>
  The rotated moments are products, \<^verbatim>\<open>(rot_1(l,m))*(I_1_tilde(l))\<close>: both factors
  are evaluated, whatever the value of the other one, and multiplied as doubles. The
  functions below are the value of the body of the macro, which is the value of the
  macro where it stands as a term of a sum or as the right-hand side of an assignment.
\<close>

definition c_times :: "scope \<Rightarrow> double option \<Rightarrow> double option \<Rightarrow> double option" where
  "c_times s a b = a \<bind> (\<lambda>x. b \<bind> (\<lambda>y. Some (dmul (rounding s) x y)))"

definition I_1 :: "scope \<Rightarrow> int \<Rightarrow> int \<Rightarrow> double option" where
  "I_1 s l m = c_times s (rot_1 s l m) (I_1_tilde s l)"

definition I_2 :: "scope \<Rightarrow> int \<Rightarrow> int \<Rightarrow> double option" where
  "I_2 s l m = c_times s (rot_2 s l m) (I_2_tilde s l)"

definition E_1 :: "scope \<Rightarrow> int \<Rightarrow> int \<Rightarrow> double option" where
  "E_1 s l m = c_times s (rot_1 s l m) (E_1_tilde s l)"

definition E_2 :: "scope \<Rightarrow> int \<Rightarrow> int \<Rightarrow> double option" where
  "E_2 s l m = c_times s (rot_2 s l m) (E_2_tilde s l)"

definition N_1 :: "scope \<Rightarrow> int \<Rightarrow> int \<Rightarrow> double option" where
  "N_1 s l m = c_times s (rot_1 s l m) (N_1_tilde s l)"

definition N_2 :: "scope \<Rightarrow> int \<Rightarrow> int \<Rightarrow> double option" where
  "N_2 s l m = c_times s (rot_2 s l m) (N_2_tilde s l)"

subsection \<open>Coupling coefficients\<close>

text \<open>
  \<^verbatim>\<open>#define c_minus(l,m1,m) ppt2->c_minus[lm(l,m)][m-m1+1]\<close>, and the same for the
  other four tables. The parameter \<^verbatim>\<open>m1\<close> is not parenthesised in the body: the
  second index is \<^verbatim>\<open>m-\<close>, the text of the argument, \<^verbatim>\<open>+1\<close>. The parameter
  \<^verbatim>\<open>m\<close> comes first in it, so that a sum pasted for it keeps its value.
\<close>

definition coupling :: "double list list \<Rightarrow> scope \<Rightarrow> int \<Rightarrow> arg \<Rightarrow> int \<Rightarrow> double option" where
  "coupling tab s l m1 m =
     lm s l m \<bind> (\<lambda>i. rd tab i \<bind> (\<lambda>row.
       pasted_difference m m1 \<bind> (\<lambda>d. c_int (d + 1) \<bind> rd row)))"

definition c_minus :: "scope \<Rightarrow> int \<Rightarrow> arg \<Rightarrow> int \<Rightarrow> double option" where
  "c_minus s l m1 m = coupling (c_minus_tab (ppt2 s)) s l m1 m"

definition c_plus :: "scope \<Rightarrow> int \<Rightarrow> arg \<Rightarrow> int \<Rightarrow> double option" where
  "c_plus s l m1 m = coupling (c_plus_tab (ppt2 s)) s l m1 m"

definition d_minus :: "scope \<Rightarrow> int \<Rightarrow> arg \<Rightarrow> int \<Rightarrow> double option" where
  "d_minus s l m1 m = coupling (d_minus_tab (ppt2 s)) s l m1 m"

definition d_plus :: "scope \<Rightarrow> int \<Rightarrow> arg \<Rightarrow> int \<Rightarrow> double option" where
  "d_plus s l m1 m = coupling (d_plus_tab (ppt2 s)) s l m1 m"

definition d_zero :: "scope \<Rightarrow> int \<Rightarrow> arg \<Rightarrow> int \<Rightarrow> double option" where
  "d_zero s l m1 m = coupling (d_zero_tab (ppt2 s)) s l m1 m"

text \<open>\<^verbatim>\<open>#define c_minus_12(l,m) ppw2->c_minus_product_12[lm(l,m)]\<close>, and the same for
  the other products of the \<^verbatim>\<open>c\<close> coefficients.\<close>

definition c_minus_12 :: "scope \<Rightarrow> int \<Rightarrow> int \<Rightarrow> double option" where
  "c_minus_12 s l m = lm s l m \<bind> rd (c_minus_product_12 (ppw2 s))"

definition c_minus_21 :: "scope \<Rightarrow> int \<Rightarrow> int \<Rightarrow> double option" where
  "c_minus_21 s l m = lm s l m \<bind> rd (c_minus_product_21 (ppw2 s))"

definition c_plus_12 :: "scope \<Rightarrow> int \<Rightarrow> int \<Rightarrow> double option" where
  "c_plus_12 s l m = lm s l m \<bind> rd (c_plus_product_12 (ppw2 s))"

definition c_plus_21 :: "scope \<Rightarrow> int \<Rightarrow> int \<Rightarrow> double option" where
  "c_plus_21 s l m = lm s l m \<bind> rd (c_plus_product_21 (ppw2 s))"

definition c_minus_11 :: "scope \<Rightarrow> int \<Rightarrow> int \<Rightarrow> double option" where
  "c_minus_11 s l m = lm s l m \<bind> rd (c_minus_product_11 (ppw2 s))"

definition c_minus_22 :: "scope \<Rightarrow> int \<Rightarrow> int \<Rightarrow> double option" where
  "c_minus_22 s l m = lm s l m \<bind> rd (c_minus_product_22 (ppw2 s))"

definition c_plus_11 :: "scope \<Rightarrow> int \<Rightarrow> int \<Rightarrow> double option" where
  "c_plus_11 s l m = lm s l m \<bind> rd (c_plus_product_11 (ppw2 s))"

definition c_plus_22 :: "scope \<Rightarrow> int \<Rightarrow> int \<Rightarrow> double option" where
  "c_plus_22 s l m = lm s l m \<bind> rd (c_plus_product_22 (ppw2 s))"

subsection \<open>Debug shortcut\<close>

text \<open>
  \<^verbatim>\<open>printf_k_debug(args...)\<close> calls \<^verbatim>\<open>fprintf(args)\<close> when the three wavemode indices
  of the workspace are the ones selected for debugging. The output stream is the list
  of the records printed so far; the macro maps the scope and the stream to the scope
  and the stream after it.
\<close>

definition printf_k_debug :: "'a \<Rightarrow> scope \<times> 'a list \<Rightarrow> scope \<times> 'a list" where
  "printf_k_debug args st =
     (case st of (s, out) \<Rightarrow>
        if index_k1 (ppw2 s) = index_k1_debug (ppt2 s) \<and>
           index_k2 (ppw2 s) = index_k2_debug (ppt2 s) \<and>
           index_k3 (ppw2 s) = index_k3_debug (ppt2 s)
        then (s, out @ [args])
        else (s, out))"

subsection \<open>Hierarchy index tables\<close>

text \<open>
  Modelled from the spec: the builder of the Hierarchy Index Table. The setup code that
  fills \<^verbatim>\<open>lm_array\<close>, \<^verbatim>\<open>nlm_array\<close> and \<^verbatim>\<open>index_m\<close> is not among the sources; the
  spec describes it as \<open>build(l_max, family)\<close>, which numbers the multipoles of a
  family contiguously from 0: \<open>(0,0)\<close> first, then the three multipoles of \<open>l = 1\<close>,
  then the five of \<open>l = 2\<close>, and so on up to \<open>l_max\<close>, and for a massive family the
  same for each radial order \<open>n = 0, 1, 2\<close> with \<open>l_max = 2\<close>.

  The builder is the loop
  \<^verbatim>\<open>for (l = 0; l <= L; l++) for (m = -l; m <= l; m++) lm_array[l][index_m[m]] = count++;\<close>
  where \<^verbatim>\<open>index_m[m]\<close> is \<open>m + M\<close> for \<open>-M \<le> m \<le> M\<close>, with \<open>M\<close> the largest
  azimuthal number of any family, and every row of the tables has \<open>2 M + 1\<close> cells,
  initially \<open>-1\<close>. The builder allocates the tables itself, with \<open>L \<le> M\<close>, so
  that every cell it writes exists.
\<close>

text \<open>Modelled from the spec: the column of the azimuthal number \<open>m\<close>.\<close>

definition index_m_build :: "int \<Rightarrow> int \<Rightarrow> int option" where
  "index_m_build M m = (if - M \<le> m \<and> m \<le> M then Some (m + M) else None)"

text \<open>
  Modelled from the spec: the inner loop, over \<open>m\<close> up to \<open>l\<close>, on the row of
  \<open>l\<close>. It returns the row and the running count.
\<close>

function fill_m :: "int \<Rightarrow> int \<Rightarrow> int \<Rightarrow> int list \<times> int \<Rightarrow> int list \<times> int" where
  "fill_m M l m (row, count) =
     (if m \<le> l then fill_m M l (m + 1) (row[nat (m + M) := count], count + 1)
      else (row, count))"
  by pat_completeness auto
termination
  by (relation "measure (\<lambda>(M, l, m, rc). nat (l + 1 - m))") auto

text \<open>
  Modelled from the spec: the outer loop, over \<open>l\<close> up to \<open>L\<close>. It returns the table
  and the running count.
\<close>

function fill_l :: "int \<Rightarrow> int \<Rightarrow> int \<Rightarrow> int list list \<times> int \<Rightarrow> int list list \<times> int" where
  "fill_l M L l (t, count) =
     (if l \<le> L
      then (case fill_m M l (- l) (t ! nat l, count) of
              (row, count') \<Rightarrow> fill_l M L (l + 1) (t[nat l := row], count'))
      else (t, count))"
  by pat_completeness auto
termination
  by (relation "measure (\<lambda>(M, L, l, tc). nat (L + 1 - l))") auto

text \<open>
  Modelled from the spec: the table as allocated, and the table and the count of a
  massless family of truncation order \<open>L\<close>.
\<close>

definition blank :: "int \<Rightarrow> int \<Rightarrow> int list list" where
  "blank M L = replicate (nat (L + 1)) (replicate (nat (2 * M + 1)) (- 1))"

definition lm_build :: "int \<Rightarrow> int \<Rightarrow> int list list \<times> int" where
  "lm_build M L = fill_l M L 0 (blank M L, 0)"

text \<open>
  Modelled from the spec: the table of a massive family, one plane for each radial
  order \<open>n = 0, 1, 2\<close>, each with \<open>l_max = 2\<close>, numbered on from the plane before.
\<close>

function fill_n :: "int \<Rightarrow> int \<Rightarrow> int list list list \<times> int \<Rightarrow> int list list list \<times> int" where
  "fill_n M n (planes, count) =
     (if n \<le> 2
      then (case fill_l M 2 0 (blank M 2, count) of
              (t, count') \<Rightarrow> fill_n M (n + 1) (planes @ [t], count'))
      else (planes, count))"
  by pat_completeness auto
termination
  by (relation "measure (\<lambda>(M, n, pc). nat (3 - n))") auto

definition nlm_build :: "int \<Rightarrow> int list list list \<times> int" where
  "nlm_build M = fill_n M 0 ([], 0)"

text \<open>
  Modelled from the spec: the setup of the index tables of a scope, for the truncation
  order \<open>L\<close> of the massless hierarchies. The massive hierarchies need the azimuthal
  numbers up to 2, hence \<open>M = max L 2\<close>.
\<close>

definition build_index_tables :: "int \<Rightarrow> scope \<Rightarrow> scope" where
  "build_index_tables L s =
     s\<lparr>ppt2 := (ppt2 s)\<lparr>lm_array := fst (lm_build (max L 2) L),
                          nlm_array := fst (nlm_build (max L 2))\<rparr>,
       ppr2 := (ppr2 s)\<lparr>index_m := index_m_build (max L 2)\<rparr>\<rparr>"

subsection \<open>Product cache\<close>

text \<open>
  Modelled from the spec: the rebuild of the Product Cache. The function that fills
  \<^verbatim>\<open>ppw2->c_minus_product_12\<close> and its siblings is not among the sources; only the
  macros that read them are. The spec describes the cache as holding, per \<open>(l,m)\<close>
  and per leg pair 11, 12, 21, 22, the coupling coefficient combined with the rotation
  factors, with \<open>product_12(l,m) = coupling(l,m,m) \<cdot> rotation(1,l,m) \<cdot> rotation(2,l,m)\<close>.
  The rebuild runs over the multipoles \<open>(l,m)\<close>, \<open>l = 0, \<dots>, L\<close>, \<open>m = -l, \<dots>, l\<close>,
  and stores at \<open>lm(l,m)\<close> of the cache of the pair \<open>ab\<close> the product of the coupling
  coefficient at \<open>(l,m,m)\<close> with the rotation coefficients of leg \<open>a\<close> and of leg
  \<open>b\<close> at \<open>(l,m)\<close>. It fails (\<open>None\<close>) when an array is accessed out of bounds.
\<close>

text \<open>Modelled from the spec: the multipoles the rebuild runs over, in order.\<close>

definition multipoles :: "int \<Rightarrow> (int \<times> int) list" where
  "multipoles L = concat (map (\<lambda>l. map (\<lambda>m. (l, m)) [- l..l]) [0..L])"

text \<open>
  Modelled from the spec: the loop that fills one cache \<open>a\<close> with the values \<open>f l m\<close>.
\<close>

fun fill_product ::
  "scope \<Rightarrow> (int \<Rightarrow> int \<Rightarrow> double option) \<Rightarrow> (int \<times> int) list \<Rightarrow> double list \<Rightarrow>
   double list option" where
  "fill_product s f [] a = Some a"
| "fill_product s f ((l, m) # ks) a =
     lm s l m \<bind> (\<lambda>i. f l m \<bind> (\<lambda>v. wr a i v \<bind> fill_product s f ks))"

text \<open>
  Modelled from the spec: the entry of a cache, the coupling coefficient \<open>c\<close> at
  \<open>(l,m,m)\<close> times the rotation coefficients \<open>ra\<close> and \<open>rb\<close> at \<open>(l,m)\<close>.
\<close>

definition product ::
  "(scope \<Rightarrow> int \<Rightarrow> arg \<Rightarrow> int \<Rightarrow> double option) \<Rightarrow> (scope \<Rightarrow> int \<Rightarrow> int \<Rightarrow> double option) \<Rightarrow>
   (scope \<Rightarrow> int \<Rightarrow> int \<Rightarrow> double option) \<Rightarrow> scope \<Rightarrow> int \<Rightarrow> int \<Rightarrow> double option" where
  "product c ra rb s l m = c_times s (c_times s (c s l (Atom m) m) (ra s l m)) (rb s l m)"

text \<open>
  Modelled from the spec: the rebuild of the eight caches of the \<^verbatim>\<open>c\<close> coefficients.
  For the pairs 11 and 22 both rotation factors are the one of the single leg.
\<close>

definition build_product_cache :: "int \<Rightarrow> scope \<Rightarrow> scope option" where
  "build_product_cache L s =
     fill_product s (product c_minus rot_1 rot_2 s) (multipoles L) (c_minus_product_12 (ppw2 s)) \<bind> (\<lambda>m12.
     fill_product s (product c_minus rot_2 rot_1 s) (multipoles L) (c_minus_product_21 (ppw2 s)) \<bind> (\<lambda>m21.
     fill_product s (product c_plus rot_1 rot_2 s) (multipoles L) (c_plus_product_12 (ppw2 s)) \<bind> (\<lambda>p12.
     fill_product s (product c_plus rot_2 rot_1 s) (multipoles L) (c_plus_product_21 (ppw2 s)) \<bind> (\<lambda>p21.
     fill_product s (product c_minus rot_1 rot_1 s) (multipoles L) (c_minus_product_11 (ppw2 s)) \<bind> (\<lambda>m11.
     fill_product s (product c_minus rot_2 rot_2 s) (multipoles L) (c_minus_product_22 (ppw2 s)) \<bind> (\<lambda>m22.
     fill_product s (product c_plus rot_1 rot_1 s) (multipoles L) (c_plus_product_11 (ppw2 s)) \<bind> (\<lambda>p11.
     fill_product s (product c_plus rot_2 rot_2 s) (multipoles L) (c_plus_product_22 (ppw2 s)) \<bind> (\<lambda>p22.
     Some (s\<lparr>ppw2 := (ppw2 s)\<lparr>
       c_minus_product_12 := m12, c_minus_product_21 := m21,
       c_plus_product_12 := p12, c_plus_product_21 := p21,
       c_minus_product_11 := m11, c_minus_product_22 := m22,
       c_plus_product_11 := p11, c_plus_product_22 := p22\<rparr>\<rparr>)))))))))"

subsection \<open>A concrete scope\<close>

text \<open>
  A scope with truncation order 2 for the photons, 1 for the neutrinos, polarisation
  switched off, and the index tables of order 2: the multipole \<open>(l,m)\<close> has the offset
  \<open>l\<^sup>2 + l + m\<close>, the moment \<open>(n,l,m)\<close> the offset \<open>9 n + l\<^sup>2 + l + m\<close>, and
  \<open>lm_quad(l,m)\<close> is \<open>l (l + 1) / 2 + m\<close>. Unused cells of the tables hold \<open>-1\<close>.
\<close>

definition ex_pv :: perturb2_vector where
  "ex_pv = \<lparr> l_max_g = 2, l_max_pol_g = 2, l_max_ur = 1,
     index_pt2_monopole_g = 0, index_pt2_monopole_E = 9, index_pt2_monopole_B = 18,
     index_pt2_monopole_ur = 27, index_pt2_monopole_b = 31, index_pt2_monopole_cdm = 58 \<rparr>"

definition ex_coupling :: "double list list" where
  "ex_coupling = map (\<lambda>i. [Finite (real i), Finite (real i + 1 / 2), Finite (- real i)]) [0..<9]"

definition ex_ppt2 :: perturbs2 where
  "ex_ppt2 = \<lparr>
     lm_array = [[-1, -1, 0, -1, -1], [-1, 1, 2, 3, -1], [4, 5, 6, 7, 8]],
     nlm_array =
       [[[-1, -1, 0, -1, -1], [-1, 1, 2, 3, -1], [4, 5, 6, 7, 8]],
        [[-1, -1, 9, -1, -1], [-1, 10, 11, 12, -1], [13, 14, 15, 16, 17]],
        [[-1, -1, 18, -1, -1], [-1, 19, 20, 21, -1], [22, 23, 24, 25, 26]]],
     lm_array_quad = [[0], [1, 2], [3, 4, 5]],
     has_polarization2 = False,
     c_minus_tab = ex_coupling, c_plus_tab = ex_coupling, d_minus_tab = ex_coupling,
     d_plus_tab = ex_coupling, d_zero_tab = ex_coupling,
     index_k1_debug = 3, index_k2_debug = 1, index_k3_debug = 4 \<rparr>"

definition ex_ppr2 :: precision2 where
  "ex_ppr2 = \<lparr> index_m = (\<lambda>m. if - 2 \<le> m \<and> m \<le> 2 then Some (m + 2) else None) \<rparr>"

definition ex_ppt :: perturbs where
  "ex_ppt = \<lparr> index_qs_monopole_g = 0, index_qs_monopole_E = 3, index_qs_monopole_ur = 6 \<rparr>"

definition ex_ppw2 :: perturb2_workspace where
  "ex_ppw2 = \<lparr> pv = ex_pv, index_k1 = 3, index_k2 = 1, index_k3 = 4,
     rotation_1 = map Finite [1, 2, 3, 4, 5, 6],
     rotation_1_minus = map Finite [1, 2, - 3, 4, - 5, 6],
     rotation_2 = map Finite [1, 7, 8, 9, 10, 11],
     rotation_2_minus = map Finite [1, 7, - 8, 9, - 10, 11],
     c_minus_product_12 = replicate 9 (Finite 0), c_minus_product_21 = replicate 9 (Finite 0),
     c_plus_product_12 = replicate 9 (Finite 0), c_plus_product_21 = replicate 9 (Finite 0),
     c_minus_product_11 = replicate 9 (Finite 0), c_minus_product_22 = replicate 9 (Finite 0),
     c_plus_product_11 = replicate 9 (Finite 0), c_plus_product_22 = replicate 9 (Finite 0) \<rparr>"

definition ex_scope :: scope where
  "ex_scope = \<lparr> rounding = Finite, ppt = ex_ppt, ppt2 = ex_ppt2, ppr2 = ex_ppr2,
     ppw2 = ex_ppw2,
     y_buf = map (\<lambda>i. Finite (real i)) [100..<185], dy_buf = replicate 85 (Finite 0),
     pvec_sources1 = map Finite [1, 2, 3, 4, 5, 6, 7, 8, 9],
     pvec_sources2 = map Finite [11, 12, 13, 14, 15, 16, 17, 18, 19] \<rparr>"

text \<open>The same scope with polarisation switched on.\<close>

definition ex_scope_pol :: scope where
  "ex_scope_pol = ex_scope\<lparr>ppt2 := ex_ppt2\<lparr>has_polarization2 := True\<rparr>\<rparr>"

text \<open>The same scope with an infinite first-order dipole on leg 1.\<close>

definition ex_scope_inf :: scope where
  "ex_scope_inf = ex_scope\<lparr>pvec_sources1 :=
     [Finite 1, Infinite, Finite 3, Finite 4, Finite 5, Finite 6, Finite 7, Finite 8, Finite 9]\<rparr>"

section \<open>Configuration files\<close>

text \<open>
  The header \<^verbatim>\<open>parser.h\<close> declares the content of a configuration file and the
  functions that read it. The structure is the one of the header: parallel arrays of
  names, values and flags. The field \<^verbatim>\<open>size\<close> is \<open>size_fc\<close> and the field
  \<^verbatim>\<open>value\<close> is \<open>value_fc\<close>; a flag is a boolean. A \<^verbatim>\<open>FileArg\<close> is an array of
  \<^verbatim>\<open>_ARGUMENT_LENGTH_MAX_\<close> characters: it holds the strings that fit into it with
  their final null character. The bodies of the functions are not among the sources;
  a function that fails returns its error message (\<open>Inl\<close>).
\<close>

definition ARGUMENT_LENGTH_MAX :: nat where
  "ARGUMENT_LENGTH_MAX = 256"

definition fits :: "string \<Rightarrow> bool" where
  "fits a \<longleftrightarrow> length a < ARGUMENT_LENGTH_MAX"

record file_content =
  filename :: string
  size_fc :: int
  name :: "string list"
  value_fc :: "string list"
  read :: "bool list"
  overwritten :: "bool list"

text \<open>
  Modelled from the spec: the content of a file as \<^verbatim>\<open>parser_read_file\<close> leaves it,
  given the name and value pairs of its lines: no entry read, none overwritten. A
  name or a value that does not fit into a \<^verbatim>\<open>FileArg\<close> is an error.
\<close>

definition parser_read_file :: "string \<Rightarrow> (string \<times> string) list \<Rightarrow> string + file_content" where
  "parser_read_file f es =
     (if list_all (\<lambda>(n, v). fits n \<and> fits v) es
      then Inr \<lparr> filename = f, size_fc = int (length es), name = map fst es,
        value_fc = map snd es, read = replicate (length es) False,
        overwritten = replicate (length es) False \<rparr>
      else Inl ''argument too long'')"

text \<open>
  Modelled from the spec: the lookup by name that the functions of the parser share;
  it yields the index of the first entry with the name.
\<close>

fun find_name :: "string list \<Rightarrow> string \<Rightarrow> nat option" where
  "find_name [] n = None"
| "find_name (x # xs) n = (if x = n then Some 0 else map_option Suc (find_name xs n))"

text \<open>
  Modelled from the spec: \<^verbatim>\<open>parser_overwrite_entry\<close> sets a new value for a name
  that is present, whether the entry has been read or not, flags the entry as
  overwritten, and reports whether the name was found. A new value that does not fit
  into a \<^verbatim>\<open>FileArg\<close> is an error.
\<close>

definition set_entry :: "file_content \<Rightarrow> nat \<Rightarrow> string \<Rightarrow> file_content" where
  "set_entry pfc i new_value =
     pfc\<lparr>value_fc := (value_fc pfc)[i := new_value],
         overwritten := (overwritten pfc)[i := True]\<rparr>"

definition parser_overwrite_entry ::
  "file_content \<Rightarrow> string \<Rightarrow> string \<Rightarrow> string + file_content \<times> bool" where
  "parser_overwrite_entry pfc n new_value =
     (case find_name (name pfc) n of
        None \<Rightarrow> Inr (pfc, False)
      | Some i \<Rightarrow>
          if fits new_value then Inr (set_entry pfc i new_value, True)
          else Inl ''argument too long'')"

text \<open>
  Modelled from the spec: the overlay of a base file with an override file. The entries
  of the override are taken in order; each overwrites the entry of the base with the
  same name, and a name that the base does not have is appended as a new entry, unread
  and not overwritten.
\<close>

definition append_entry :: "file_content \<Rightarrow> string \<Rightarrow> string \<Rightarrow> file_content" where
  "append_entry pfc n v =
     pfc\<lparr>size_fc := size_fc pfc + 1, name := name pfc @ [n], value_fc := value_fc pfc @ [v],
         read := read pfc @ [False], overwritten := overwritten pfc @ [False]\<rparr>"

definition overlay_step :: "file_content \<Rightarrow> string \<Rightarrow> string \<Rightarrow> string + file_content" where
  "overlay_step pfc n v =
     (case parser_overwrite_entry pfc n v of
        Inl e \<Rightarrow> Inl e
      | Inr (pfc', found) \<Rightarrow> Inr (if found then pfc' else append_entry pfc n v))"

fun overlay :: "file_content \<Rightarrow> (string \<times> string) list \<Rightarrow> string + file_content" where
  "overlay pfc [] = Inr pfc"
| "overlay pfc ((n, v) # es) =
     (case overlay_step pfc n v of Inl e \<Rightarrow> Inl e | Inr pfc' \<Rightarrow> overlay pfc' es)"

definition parser_overlay :: "file_content \<Rightarrow> file_content \<Rightarrow> string + file_content" where
  "parser_overlay base override = overlay base (zip (name override) (value_fc override))"

text \<open>
  Modelled from the spec: a typed lookup. It reports not found as \<open>None\<close>; when the
  name is found, it converts the value of the entry to the type asked for, flags the
  entry as read and returns the converted value; a value that cannot be converted is
  an error. The six lookups of the header differ in the conversion only.
\<close>

definition parser_read_as ::
  "(string \<Rightarrow> 'a option) \<Rightarrow> file_content \<Rightarrow> string \<Rightarrow> string + file_content \<times> 'a option" where
  "parser_read_as convert pfc n =
     (case find_name (name pfc) n of
        None \<Rightarrow> Inr (pfc, None)
      | Some i \<Rightarrow>
          (case convert (value_fc pfc ! i) of
             None \<Rightarrow> Inl ''could not read value of parameter''
           | Some x \<Rightarrow> Inr (pfc\<lparr>read := (read pfc)[i := True]\<rparr>, Some x)))"

text \<open>
  Modelled from the spec: the conversions. An integer is written in decimal notation,
  with an optional minus sign, and must be an \<^verbatim>\<open>int\<close>; a list is written with commas
  between its elements. The conversion of a string to a \<^verbatim>\<open>double\<close> is the one of the
  C library and is a parameter, \<open>strtod\<close>.
\<close>

definition digit :: "char \<Rightarrow> nat option" where
  "digit c = (let k = (of_char c :: nat) in if 48 \<le> k \<and> k \<le> 57 then Some (k - 48) else None)"

fun digits :: "nat \<Rightarrow> string \<Rightarrow> nat option" where
  "digits acc [] = Some acc"
| "digits acc (c # cs) = (case digit c of None \<Rightarrow> None | Some d \<Rightarrow> digits (10 * acc + d) cs)"

definition parse_int :: "string \<Rightarrow> int option" where
  "parse_int a =
     (case a of
        [] \<Rightarrow> None
      | c # cs \<Rightarrow>
          if c = CHR ''-''
          then (if cs = [] then None else digits 0 cs \<bind> (\<lambda>k. c_int (- int k)))
          else digits 0 a \<bind> (\<lambda>k. c_int (int k)))"

fun split_commas :: "string \<Rightarrow> string list" where
  "split_commas [] = [[]]"
| "split_commas (c # cs) =
     (if c = CHR '','' then [] # split_commas cs
      else (case split_commas cs of [] \<Rightarrow> [[c]] | x # xs \<Rightarrow> (c # x) # xs))"

fun convert_all :: "(string \<Rightarrow> 'a option) \<Rightarrow> string list \<Rightarrow> 'a list option" where
  "convert_all convert [] = Some []"
| "convert_all convert (x # xs) =
     convert x \<bind> (\<lambda>y. convert_all convert xs \<bind> (\<lambda>ys. Some (y # ys)))"

definition parse_list :: "(string \<Rightarrow> 'a option) \<Rightarrow> string \<Rightarrow> 'a list option" where
  "parse_list convert a = convert_all convert (split_commas a)"

text \<open>Modelled from the spec: the six typed lookups that the header declares.\<close>

definition parser_read_int ::
  "file_content \<Rightarrow> string \<Rightarrow> string + file_content \<times> int option" where
  "parser_read_int = parser_read_as parse_int"

definition parser_read_double ::
  "(string \<Rightarrow> double option) \<Rightarrow> file_content \<Rightarrow> string \<Rightarrow>
   string + file_content \<times> double option" where
  "parser_read_double strtod = parser_read_as strtod"

definition parser_read_string ::
  "file_content \<Rightarrow> string \<Rightarrow> string + file_content \<times> string option" where
  "parser_read_string = parser_read_as Some"

definition parser_read_list_of_doubles ::
  "(string \<Rightarrow> double option) \<Rightarrow> file_content \<Rightarrow> string \<Rightarrow>
   string + file_content \<times> double list option" where
  "parser_read_list_of_doubles strtod = parser_read_as (parse_list strtod)"

definition parser_read_list_of_integers ::
  "file_content \<Rightarrow> string \<Rightarrow> string + file_content \<times> int list option" where
  "parser_read_list_of_integers = parser_read_as (parse_list parse_int)"

definition parser_read_list_of_strings ::
  "file_content \<Rightarrow> string \<Rightarrow> string + file_content \<times> string list option" where
  "parser_read_list_of_strings = parser_read_as (parse_list Some)"

text \<open>
  Modelled from the spec: the content of a file after lookups that succeeded, of
  whatever type, of the names \<open>ns\<close>; and the reports of the entries never consulted
  and of the entries overwritten.
\<close>

definition mark_read :: "file_content \<Rightarrow> string \<Rightarrow> file_content" where
  "mark_read pfc n =
     (case find_name (name pfc) n of
        None \<Rightarrow> pfc
      | Some i \<Rightarrow> pfc\<lparr>read := (read pfc)[i := True]\<rparr>)"

fun lookups :: "file_content \<Rightarrow> string list \<Rightarrow> file_content" where
  "lookups pfc [] = pfc"
| "lookups pfc (n # ns) = lookups (mark_read pfc n) ns"

definition unread_entries :: "file_content \<Rightarrow> string list" where
  "unread_entries pfc = map fst (filter (\<lambda>(n, r). \<not> r) (zip (name pfc) (read pfc)))"

definition overwritten_entries :: "file_content \<Rightarrow> string list" where
  "overwritten_entries pfc = map fst (filter (\<lambda>(n, w). w) (zip (name pfc) (overwritten pfc)))"

text \<open>The arrays of a file content have the same length.\<close>

definition wf_fc :: "file_content \<Rightarrow> bool" where
  "wf_fc pfc \<longleftrightarrow> length (value_fc pfc) = length (name pfc) \<and>
     length (read pfc) = length (name pfc) \<and> length (overwritten pfc) = length (name pfc)"

text \<open>
  The result of one step of the overlay, and of the overlay, when no value is too long.
\<close>

definition step_result :: "file_content \<Rightarrow> string \<Rightarrow> string \<Rightarrow> file_content" where
  "step_result pfc n v =
     (case find_name (name pfc) n of
        None \<Rightarrow> append_entry pfc n v
      | Some i \<Rightarrow> set_entry pfc i v)"

fun overlay_result :: "file_content \<Rightarrow> (string \<times> string) list \<Rightarrow> file_content" where
  "overlay_result pfc [] = pfc"
| "overlay_result pfc ((n, v) # es) = overlay_result (step_result pfc n v) es"

text \<open>
  A base file and an override file that sets one of its names again, and a base file
  with a single entry.
\<close>

definition ex_base :: "(string \<times> string) list" where
  "ex_base = [(''l_max_g'', ''4''), (''l_max_ur'', ''3'')]"

definition ex_override :: "(string \<times> string) list" where
  "ex_override = [(''l_max_g'', ''6'')]"

definition ex_single :: "(string \<times> string) list" where
  "ex_single = [(''l_max_g'', ''4'')]"

section \<open>Properties\<close>

declare fill_m.simps [simp del] fill_l.simps [simp del] fill_n.simps [simp del]

subsection \<open>Evaluation of the concrete scope\<close>

lemma ex_scope_sel:
  "rounding ex_scope = Finite"
  "ppt ex_scope = ex_ppt" "ppt2 ex_scope = ex_ppt2" "ppr2 ex_scope = ex_ppr2"
  "ppw2 ex_scope = ex_ppw2" "dy_buf ex_scope = replicate 85 (Finite 0)"
  "pvec_sources1 ex_scope = map Finite [1, 2, 3, 4, 5, 6, 7, 8, 9]"
  "pvec_sources2 ex_scope = map Finite [11, 12, 13, 14, 15, 16, 17, 18, 19]"
  "rounding ex_scope_pol = Finite"
  "ppt ex_scope_pol = ex_ppt" "ppt2 ex_scope_pol = ex_ppt2\<lparr>has_polarization2 := True\<rparr>"
  "ppr2 ex_scope_pol = ex_ppr2" "ppw2 ex_scope_pol = ex_ppw2"
  "y_buf ex_scope_pol = y_buf ex_scope" "dy_buf ex_scope_pol = replicate 85 (Finite 0)"
  "pvec_sources1 ex_scope_pol = map Finite [1, 2, 3, 4, 5, 6, 7, 8, 9]"
  "pvec_sources2 ex_scope_pol = map Finite [11, 12, 13, 14, 15, 16, 17, 18, 19]"
  "rounding ex_scope_inf = Finite"
  "ppt ex_scope_inf = ex_ppt" "ppt2 ex_scope_inf = ex_ppt2" "ppr2 ex_scope_inf = ex_ppr2"
  "ppw2 ex_scope_inf = ex_ppw2"
  "pvec_sources1 ex_scope_inf =
     [Finite 1, Infinite, Finite 3, Finite 4, Finite 5, Finite 6, Finite 7, Finite 8, Finite 9]"
  by (simp_all add: ex_scope_def ex_scope_pol_def ex_scope_inf_def)

lemma ex_y_buf:
  "length (y_buf ex_scope) = 85" "i < 85 \<Longrightarrow> y_buf ex_scope ! i = Finite (100 + real i)"
  by (simp_all add: ex_scope_def del: upt_rec_numeral)

lemmas ex_eval = ex_scope_sel ex_y_buf ex_ppt2_def ex_ppr2_def ex_ppt_def ex_ppw2_def ex_pv_def
  ex_coupling_def lm_def nlm_def lm_quad_def rd_def c_abs_def c_int_def INT_MIN_def INT_MAX_def

subsection \<open>Read accessors\<close>

text \<open>
  Claim C1, as amended. Let \<open>l\<close> and \<open>m\<close> be ints, \<open>m\<close> other than \<open>INT_MIN\<close>. For
  the photon temperature, the two polarisation families and the neutrinos, the read
  accessor at \<open>(l,m)\<close> is 0 whenever \<open>l < 0\<close>, or \<open>|m| > l\<close>, or \<open>l\<close> exceeds the
  truncation order of the family, or (for E and B) polarisation is switched off;
  otherwise it is the entry of the state buffer at the family's base offset plus
  \<open>lm(l,m)\<close>. For the baryon and cold dark matter moments, read at \<open>(n,l,m)\<close>, the
  accessor is 0 whenever \<open>l < 0\<close> or \<open>|m| > l\<close>, and otherwise the entry of the state
  buffer at the base offset plus \<open>nlm(n,l,m)\<close>: these two macros compare \<open>l\<close> with no
  truncation order. At \<open>m = INT_MIN\<close> the macros evaluate \<^verbatim>\<open>abs(INT_MIN)\<close>, which is
  undefined, and have no value; only E and B are still 0 there when polarisation is
  switched off, since they test the flag first.
\<close>

theorem read_accessors:
  "I_rd s l m =
     (if m = INT_MIN then None
      else if l < 0 \<or> \<bar>m\<bar> > l \<or> l > l_max_g (pv (ppw2 s)) then Some (Finite 0)
      else lm s l m \<bind> (\<lambda>off. rd (y_buf s) (index_pt2_monopole_g (pv (ppw2 s)) + off))) \<and>
   E_rd s l m =
     (if \<not> has_polarization2 (ppt2 s) then Some (Finite 0)
      else if m = INT_MIN then None
      else if l < 0 \<or> \<bar>m\<bar> > l \<or> l > l_max_pol_g (pv (ppw2 s)) then Some (Finite 0)
      else lm s l m \<bind> (\<lambda>off. rd (y_buf s) (index_pt2_monopole_E (pv (ppw2 s)) + off))) \<and>
   B_rd s l m =
     (if \<not> has_polarization2 (ppt2 s) then Some (Finite 0)
      else if m = INT_MIN then None
      else if l < 0 \<or> \<bar>m\<bar> > l \<or> l > l_max_pol_g (pv (ppw2 s)) then Some (Finite 0)
      else lm s l m \<bind> (\<lambda>off. rd (y_buf s) (index_pt2_monopole_B (pv (ppw2 s)) + off))) \<and>
   N_rd s l m =
     (if m = INT_MIN then None
      else if l < 0 \<or> \<bar>m\<bar> > l \<or> l > l_max_ur (pv (ppw2 s)) then Some (Finite 0)
      else lm s l m \<bind> (\<lambda>off. rd (y_buf s) (index_pt2_monopole_ur (pv (ppw2 s)) + off))) \<and>
   b_rd s n l m =
     (if m = INT_MIN then None
      else if l < 0 \<or> \<bar>m\<bar> > l then Some (Finite 0)
      else nlm s n l m \<bind> (\<lambda>off. rd (y_buf s) (index_pt2_monopole_b (pv (ppw2 s)) + off))) \<and>
   cdm_rd s n l m =
     (if m = INT_MIN then None
      else if l < 0 \<or> \<bar>m\<bar> > l then Some (Finite 0)
      else nlm s n l m \<bind> (\<lambda>off. rd (y_buf s) (index_pt2_monopole_cdm (pv (ppw2 s)) + off)))"
proof -
  have neg: "l < 0 \<Longrightarrow> \<bar>m\<bar> > l" by arith
  show ?thesis
    unfolding I_rd_def E_rd_def B_rd_def N_rd_def b_rd_def cdm_rd_def c_abs_def
    using neg by auto
qed

text \<open>Values of the accessors in the concrete scope, inside and outside validity.\<close>

theorem read_accessors_witness:
  "I_rd ex_scope 3 0 = Some (Finite 0) \<and> E_rd ex_scope 3 0 = Some (Finite 0) \<and>
   B_rd ex_scope 3 0 = Some (Finite 0) \<and> N_rd ex_scope 3 0 = Some (Finite 0) \<and>
   I_rd ex_scope 2 (- 1) = Some (Finite 105) \<and> E_rd ex_scope_pol 1 0 = Some (Finite 111) \<and>
   B_rd ex_scope_pol 2 2 = Some (Finite 126) \<and> N_rd ex_scope 1 1 = Some (Finite 130) \<and>
   b_rd ex_scope 1 1 (- 1) = Some (Finite 141) \<and> cdm_rd ex_scope 2 2 2 = Some (Finite 184) \<and>
   b_rd ex_scope 1 1 2 = Some (Finite 0) \<and> cdm_rd ex_scope 1 (- 1) 0 = Some (Finite 0) \<and>
   I_rd ex_scope 0 (- 2147483648) = None \<and> E_rd ex_scope 0 (- 2147483648) = Some (Finite 0) \<and>
   E_rd ex_scope_pol 0 (- 2147483648) = None"
  using read_accessors [of ex_scope 3 0 1 ] read_accessors [of ex_scope 2 "- 1" 1]
    read_accessors [of ex_scope_pol 1 0 2] read_accessors [of ex_scope_pol 2 2 2]
    read_accessors [of ex_scope 1 1 1] read_accessors [of ex_scope 1 "- 1" 1]
    read_accessors [of ex_scope 1 2 1] read_accessors [of ex_scope "- 1" 0 1]
    read_accessors [of ex_scope 2 2 2] read_accessors [of ex_scope 0 "- 2147483648" 0]
    read_accessors [of ex_scope_pol 0 "- 2147483648" 0]
  by (simp add: ex_eval)

text \<open>
  The claim as stated fails for the massive families: the moments retained have
  \<open>l \<le> 2\<close>, and at \<open>l = 3\<close> the macros \<^verbatim>\<open>b\<close> and \<^verbatim>\<open>cdm\<close> do not yield 0 but
  index \<^verbatim>\<open>nlm_array\<close> past its last row. It also fails at \<open>m = INT_MIN\<close>, where
  \<open>|m| > l\<close> and the macro evaluates \<^verbatim>\<open>abs(INT_MIN)\<close>.
\<close>

theorem read_accessors_counterexample:
  "b_rd ex_scope 0 3 0 \<noteq> Some (Finite 0) \<and> cdm_rd ex_scope 0 3 0 \<noteq> Some (Finite 0) \<and>
   I_rd ex_scope 0 (- 2147483648) \<noteq> Some (Finite 0) \<and>
   N_rd ex_scope (- 1) (- 2147483648) \<noteq> Some (Finite 0)"
  by (simp add: b_rd_def cdm_rd_def I_rd_def N_rd_def ex_eval)

subsection \<open>Hierarchy index tables\<close>

lemma fill_m_length: "length (fst (fill_m M l m (row, c))) = length row"
proof (induction M l m "(row, c)" arbitrary: row c rule: fill_m.induct)
  case (1 M l m row c)
  then show ?case by (subst fill_m.simps) simp
qed

lemma fill_m_count: "m \<le> l + 1 \<Longrightarrow> snd (fill_m M l m (row, c)) = c + (l + 1 - m)"
proof (induction M l m "(row, c)" arbitrary: row c rule: fill_m.induct)
  case (1 M l m row c)
  then show ?case by (subst fill_m.simps) simp
qed

lemma fill_m_nth:
  "0 \<le> m + M \<Longrightarrow> j < length row \<Longrightarrow>
   fst (fill_m M l m (row, c)) ! j =
     (if m + M \<le> int j \<and> int j \<le> l + M then c + (int j - (m + M)) else row ! j)"
proof (induction M l m "(row, c)" arbitrary: row c rule: fill_m.induct)
  case (1 M l m row c)
  show ?case
  proof (cases "m \<le> l")
    case True
    have "fst (fill_m M l m (row, c)) ! j =
        fst (fill_m M l (m + 1) (row[nat (m + M) := c], c + 1)) ! j"
      using True by (subst fill_m.simps) simp
    also have "\<dots> = (if m + 1 + M \<le> int j \<and> int j \<le> l + M then c + 1 + (int j - (m + 1 + M))
        else row[nat (m + M) := c] ! j)"
      using 1 True by simp
    also have "\<dots> = (if m + M \<le> int j \<and> int j \<le> l + M then c + (int j - (m + M)) else row ! j)"
      using 1(2,3) True by (auto simp: nth_list_update)
    finally show ?thesis .
  next
    case False
    then show ?thesis by (subst fill_m.simps) auto
  qed
qed


lemma fill_l_length: "length (fst (fill_l M L l (t, c))) = length t"
proof (induction M L l "(t, c)" arbitrary: t c rule: fill_l.induct)
  case (1 M L l t c)
  then show ?case by (subst fill_l.simps) (simp split: prod.split)
qed

lemma fill_l_count:
  "0 \<le> l \<Longrightarrow> l \<le> L + 1 \<Longrightarrow> snd (fill_l M L l (t, c)) = c + ((L + 1) * (L + 1) - l * l)"
proof (induction M L l "(t, c)" arbitrary: t c rule: fill_l.induct)
  case (1 M L l t c)
  show ?case
  proof (cases "l \<le> L")
    case True
    obtain row c' where f: "fill_m M l (- l) (t ! nat l, c) = (row, c')"
      by (cases "fill_m M l (- l) (t ! nat l, c)")
    have c': "c' = c + (2 * l + 1)"
      using fill_m_count [of "- l" l M "t ! nat l" c] 1(2) f by simp
    have "snd (fill_l M L l (t, c)) = snd (fill_l M L (l + 1) (t[nat l := row], c'))"
      using True f by (subst fill_l.simps) simp
    also have "\<dots> = c' + ((L + 1) * (L + 1) - (l + 1) * (l + 1))"
      using 1(1) [OF True f [symmetric]] 1(2) True by simp
    finally show ?thesis using c' by (simp add: algebra_simps)
  next
    case False
    with 1(3) have "l = L + 1" by simp
    then show ?thesis by (subst fill_l.simps) simp
  qed
qed

lemma fill_l_nth:
  "0 \<le> l \<Longrightarrow> L \<le> M \<Longrightarrow> L < int (length t) \<Longrightarrow>
   \<forall>k. l \<le> int k \<and> int k \<le> L \<longrightarrow> length (t ! k) = nat (2 * M + 1) \<Longrightarrow>
   i < length t \<Longrightarrow> int j < 2 * M + 1 \<Longrightarrow>
   fst (fill_l M L l (t, c)) ! i ! j =
     (if l \<le> int i \<and> int i \<le> L \<and> M - int i \<le> int j \<and> int j \<le> M + int i
      then c + (int i * int i - l * l) + (int j - (M - int i)) else t ! i ! j)"
proof (induction M L l "(t, c)" arbitrary: t c rule: fill_l.induct)
  case (1 M L l t c)
  show ?case
  proof (cases "l \<le> L")
    case True
    obtain row c' where f: "fill_m M l (- l) (t ! nat l, c) = (row, c')"
      by (cases "fill_m M l (- l) (t ! nat l, c)")
    have c': "c' = c + (2 * l + 1)"
      using fill_m_count [of "- l" l M "t ! nat l" c] 1(2) f by simp
    have len_l: "length (t ! nat l) = nat (2 * M + 1)"
      using 1(5) 1(2) True by (auto dest: spec [of _ "nat l"])
    have len_row: "length row = nat (2 * M + 1)"
      using fill_m_length [of M l "- l" "t ! nat l" c] f len_l by simp
    have row: "row ! j =
        (if M - l \<le> int j \<and> int j \<le> l + M then c + (int j - (M - l)) else t ! nat l ! j)"
      using fill_m_nth [of "- l" M j "t ! nat l" l c] f len_l 1(2,3,7) True by simp
    let ?t = "t[nat l := row]"
    have pre: "\<forall>k. l + 1 \<le> int k \<and> int k \<le> L \<longrightarrow> length (?t ! k) = nat (2 * M + 1)"
    proof (intro allI impI)
      fix k assume k: "l + 1 \<le> int k \<and> int k \<le> L"
      then have "k \<noteq> nat l" using 1(2) by auto
      then show "length (?t ! k) = nat (2 * M + 1)" using 1(5) k by simp
    qed
    have "fst (fill_l M L l (t, c)) ! i ! j = fst (fill_l M L (l + 1) (?t, c')) ! i ! j"
      using True f by (subst fill_l.simps) simp
    also have "\<dots> =
        (if l + 1 \<le> int i \<and> int i \<le> L \<and> M - int i \<le> int j \<and> int j \<le> M + int i
         then c' + (int i * int i - (l + 1) * (l + 1)) + (int j - (M - int i)) else ?t ! i ! j)"
      using 1(1) [OF True f [symmetric] _ 1(3) _ pre _ 1(7)] 1(2,4,6) by simp
    also have "\<dots> =
        (if l \<le> int i \<and> int i \<le> L \<and> M - int i \<le> int j \<and> int j \<le> M + int i
         then c + (int i * int i - l * l) + (int j - (M - int i)) else t ! i ! j)"
    proof (cases "i = nat l")
      case True
      then have il: "int i = l" using 1(2) by simp
      show ?thesis using True il row 1(6) \<open>l \<le> L\<close> by (simp add: algebra_simps)
    next
      case False
      then have "int i \<noteq> l" using 1(2) by auto
      then show ?thesis using False c' by (auto simp: algebra_simps)
    qed
    finally show ?thesis .
  next
    case False
    then show ?thesis by (subst fill_l.simps) auto
  qed
qed


lemma fill_l_row_length: "length (fst (fill_l M L l (t, c)) ! k) = length (t ! k)"
proof (induction M L l "(t, c)" arbitrary: t c rule: fill_l.induct)
  case (1 M L l t c)
  show ?case
  proof (cases "l \<le> L")
    case True
    obtain row c' where f: "fill_m M l (- l) (t ! nat l, c) = (row, c')"
      by (cases "fill_m M l (- l) (t ! nat l, c)")
    have len_row: "length row = length (t ! nat l)"
      using fill_m_length [of M l "- l" "t ! nat l" c] f by simp
    have upd: "length (t[nat l := row] ! k) = length (t ! k)"
      using len_row by (cases "nat l < length t") (auto simp: nth_list_update list_update_beyond)
    have "fst (fill_l M L l (t, c)) = fst (fill_l M L (l + 1) (t[nat l := row], c'))"
      using True f by (subst fill_l.simps) simp
    then show ?thesis
      using 1 [OF True f [symmetric]] upd by simp
  next
    case False
    then show ?thesis by (subst fill_l.simps) simp
  qed
qed

lemma blank_shape:
  "0 \<le> L \<Longrightarrow> 0 \<le> M \<Longrightarrow> int (length (blank M L)) = L + 1"
  "0 \<le> L \<Longrightarrow> 0 \<le> M \<Longrightarrow> int k \<le> L \<Longrightarrow> length (blank M L ! k) = nat (2 * M + 1)"
  by (simp_all add: blank_def)

lemma fill_l_blank:
  assumes "0 \<le> l" "l \<le> L" "L \<le> M" "\<bar>m\<bar> \<le> l"
  shows "rd (fst (fill_l M L 0 (blank M L, c))) l \<bind> (\<lambda>row. rd row (m + M)) =
    Some (c + l * l + l + m)"
proof -
  let ?t = "fst (fill_l M L 0 (blank M L, c))"
  have M: "0 \<le> M" "0 \<le> L" using assms by auto
  have len: "int (length ?t) = L + 1"
    using blank_shape(1) [OF M(2,1)] by (simp add: fill_l_length)
  have i: "nat l < length (blank M L)" using blank_shape(1) [OF M(2,1)] assms by auto
  have j: "int (nat (m + M)) < 2 * M + 1" using assms by auto
  have cell: "?t ! nat l ! nat (m + M) = c + l * l + l + m"
    using fill_l_nth [of 0 L M "blank M L" "nat l" "nat (m + M)" c, OF _ assms(3) _ _ i j]
      blank_shape [OF M(2,1)] assms
    by (auto simp: algebra_simps)
  have rowlen: "length (?t ! nat l) = nat (2 * M + 1)"
  proof -
    have "length (fst (fill_l M L 0 (blank M L, c)) ! nat l) = length (blank M L ! nat l)"
      by (rule fill_l_row_length)
    then show ?thesis using blank_shape(2) [OF M(2,1), of "nat l"] assms by simp
  qed
  have "0 \<le> m + M" "m + M < 2 * M + 1" using assms by auto
  then show ?thesis
    using len assms(1,2) cell rowlen by (simp add: rd_def)
qed


lemma lm_built:
  assumes "0 \<le> l" "l \<le> L" "\<bar>m\<bar> \<le> l"
  shows "lm (build_index_tables L s) l m = Some (l * l + l + m)"
proof -
  have "L \<le> max L 2" "- max L 2 \<le> m" "m \<le> max L 2" using assms by auto
  then show ?thesis
    using fill_l_blank [of l L "max L 2" m 0] assms
    by (simp add: lm_def build_index_tables_def lm_build_def index_m_build_def
        split: bind_splits)
qed

lemma nlm_build_planes:
  "nlm_build M =
     ([fst (fill_l M 2 0 (blank M 2, 0)), fst (fill_l M 2 0 (blank M 2, 9)),
       fst (fill_l M 2 0 (blank M 2, 18))], 27)"
  by (simp add: nlm_build_def fill_n.simps split_def fill_l_count)

lemma nlm_built:
  assumes "0 \<le> n" "n \<le> 2" "0 \<le> l" "l \<le> 2" "\<bar>m\<bar> \<le> l"
  shows "nlm (build_index_tables L s) n l m = Some (9 * n + l * l + l + m)"
proof -
  have M: "2 \<le> max L 2" "- max L 2 \<le> m" "m \<le> max L 2" using assms by auto
  have n: "n = 0 \<or> n = 1 \<or> n = 2" using assms by auto
  have cell: "rd (fst (fill_l (max L 2) 2 0 (blank (max L 2) 2, c))) l \<bind>
      (\<lambda>row. rd row (m + max L 2)) = Some (c + l * l + l + m)" for c
    using fill_l_blank [of l 2 "max L 2" m c] assms M by simp
  have planes: "rd [a, b, c] 0 = Some a" "rd [a, b, c] 1 = Some b" "rd [a, b, c] 2 = Some c"
    for a b c :: "int list list"
    by (simp_all add: rd_def)
  have idx: "index_m_build (max L 2) m = Some (m + max L 2)"
    using M by (simp add: index_m_build_def)
  have "nlm (build_index_tables L s) n l m =
      rd (fst (nlm_build (max L 2))) n \<bind> (\<lambda>plane.
        rd plane l \<bind> (\<lambda>row. rd row (m + max L 2)))"
    by (simp add: nlm_def build_index_tables_def idx)
  also have "\<dots> = Some (9 * n + l * l + l + m)"
    using n by (auto simp: nlm_build_planes planes cell)
  finally show ?thesis .
qed

lemma offset_range:
  fixes l m n :: int
  assumes "0 \<le> l" "l \<le> n" "\<bar>m\<bar> \<le> l"
  shows "0 \<le> l * l + l + m \<and> l * l + l + m < (n + 1) * (n + 1)"
proof -
  have "(l + 1) * (l + 1) \<le> (n + 1) * (n + 1)"
    using assms by (intro mult_mono) auto
  moreover have "l * l + l + m < (l + 1) * (l + 1)"
    using assms by (simp add: algebra_simps)
  moreover have "0 \<le> l * l + l + m"
    using assms zero_le_square [of l] by linarith
  ultimately show ?thesis by linarith
qed

lemma offset_inj:
  fixes l m l' m' :: int
  assumes "0 \<le> l" "\<bar>m\<bar> \<le> l" "0 \<le> l'" "\<bar>m'\<bar> \<le> l'"
    and eq: "l * l + l + m = l' * l' + l' + m'"
  shows "l = l' \<and> m = m'"
proof -
  have less: False if "0 \<le> a" "\<bar>x\<bar> \<le> a" "\<bar>y\<bar> \<le> b" "a < b"
    "a * a + a + x = b * b + b + y" for a b x y :: int
  proof -
    have "a * a + a + x < (a + 1) * (a + 1)"
      using offset_range [of a a x] that by simp
    also have "\<dots> \<le> b * b" using that by (intro mult_mono) auto
    also have "\<dots> \<le> b * b + b + y" using that by auto
    finally show False using that by simp
  qed
  have "l = l'"
    using less [of l m m' l'] less [of l' m' m l] assms by (cases l l' rule: linorder_cases) auto
  then show ?thesis using eq by simp
qed

lemma offset_surj:
  fixes n v :: int
  assumes "0 \<le> n" "0 \<le> v" "v < (n + 1) * (n + 1)"
  shows "\<exists>l m. 0 \<le> l \<and> l \<le> n \<and> \<bar>m\<bar> \<le> l \<and> v = l * l + l + m"
  using assms
proof (induction n rule: int_ge_induct)
  case base
  then have "v = 0" by simp
  then show ?case by (intro exI [of _ 0]) simp
next
  case (step n)
  show ?case
  proof (cases "v < (n + 1) * (n + 1)")
    case True
    then obtain l m where "0 \<le> l \<and> l \<le> n \<and> \<bar>m\<bar> \<le> l \<and> v = l * l + l + m"
      using step by blast
    then show ?thesis by (intro exI [of _ l] exI [of _ m]) simp
  next
    case False
    let ?l = "n + 1"
    let ?m = "v - ?l * ?l - ?l"
    have "\<bar>?m\<bar> \<le> ?l" using False step(4) by (simp add: algebra_simps)
    then show ?thesis using step(1) by (intro exI [of _ ?l] exI [of _ ?m]) simp
  qed
qed

lemma sum_odd: "0 \<le> n \<Longrightarrow> (\<Sum>l = 0..n. 2 * l + 1) = (n + 1) * (n + 1)" for n :: int
proof (induction n rule: int_ge_induct)
  case base
  then show ?case by simp
next
  case (step n)
  have "{0..n + 1} = insert (n + 1) {0..n}" using step(1) by auto
  then show ?case using step by (simp add: algebra_simps)
qed


lemma bij_betw_Some_offsets:
  fixes f :: "'a \<Rightarrow> int option" and g :: "'a \<Rightarrow> int"
  assumes "\<And>x. x \<in> A \<Longrightarrow> f x = Some (g x)" "inj_on g A" "g ` A = B"
  shows "bij_betw f A (Some ` B)"
proof (rule bij_betw_imageI)
  show "inj_on f A"
    using assms(1,2) by (auto simp: inj_on_def)
  have "f ` A = (\<lambda>x. Some (g x)) ` A" using assms(1) by (intro image_cong) auto
  then show "f ` A = Some ` B" using assms(3) by auto
qed

lemma lm_valid_offsets:
  fixes lmax :: int
  assumes "0 \<le> lmax"
  shows "inj_on (\<lambda>(l, m). l * l + l + m) {(l, m). 0 \<le> l \<and> l \<le> lmax \<and> \<bar>m\<bar> \<le> l}"
    and "(\<lambda>(l, m). l * l + l + m) ` {(l, m). 0 \<le> l \<and> l \<le> lmax \<and> \<bar>m\<bar> \<le> l} =
      {0..<(lmax + 1) * (lmax + 1)}"
proof -
  show "inj_on (\<lambda>(l, m). l * l + l + m) {(l, m). 0 \<le> l \<and> l \<le> lmax \<and> \<bar>m\<bar> \<le> l}"
    by (auto simp: inj_on_def dest: offset_inj)
  show "(\<lambda>(l, m). l * l + l + m) ` {(l, m). 0 \<le> l \<and> l \<le> lmax \<and> \<bar>m\<bar> \<le> l} =
      {0..<(lmax + 1) * (lmax + 1)}"
  proof (intro set_eqI iffI)
    fix v assume "v \<in> (\<lambda>(l, m). l * l + l + m) ` {(l, m). 0 \<le> l \<and> l \<le> lmax \<and> \<bar>m\<bar> \<le> l}"
    then obtain l m where "0 \<le> l" "l \<le> lmax" "\<bar>m\<bar> \<le> l" "v = l * l + l + m" by auto
    then show "v \<in> {0..<(lmax + 1) * (lmax + 1)}"
      using offset_range [of l lmax m] by simp
  next
    fix v assume "v \<in> {0..<(lmax + 1) * (lmax + 1)}"
    then obtain l m where "0 \<le> l \<and> l \<le> lmax \<and> \<bar>m\<bar> \<le> l \<and> v = l * l + l + m"
      using offset_surj [of lmax v] assms by auto
    then show "v \<in> (\<lambda>(l, m). l * l + l + m) ` {(l, m). 0 \<le> l \<and> l \<le> lmax \<and> \<bar>m\<bar> \<le> l}"
      by (intro image_eqI [of _ _ "(l, m)"]) auto
  qed
qed

lemma nlm_valid_offsets:
  "inj_on (\<lambda>(n, l, m). 9 * n + l * l + l + m)
     {(n, l, m). 0 \<le> n \<and> n \<le> 2 \<and> 0 \<le> l \<and> l \<le> (2::int) \<and> \<bar>m\<bar> \<le> l}"
  "(\<lambda>(n, l, m). 9 * n + l * l + l + m) `
     {(n, l, m). 0 \<le> n \<and> n \<le> 2 \<and> 0 \<le> l \<and> l \<le> (2::int) \<and> \<bar>m\<bar> \<le> l} = {0..<27::int}"
proof -
  let ?A = "{(n, l, m). 0 \<le> n \<and> n \<le> 2 \<and> 0 \<le> l \<and> l \<le> (2::int) \<and> \<bar>m\<bar> \<le> l}"
  have r: "0 \<le> l * l + l + m \<and> l * l + l + m < 9" if "0 \<le> l" "l \<le> 2" "\<bar>m\<bar> \<le> l" for l m :: int
    using offset_range [of l 2 m] that by simp
  show "inj_on (\<lambda>(n, l, m). 9 * n + l * l + l + m) ?A"
  proof (clarsimp simp: inj_on_def)
    fix n l m n' l' m' :: int
    assume a: "0 \<le> n" "n \<le> 2" "0 \<le> l" "l \<le> 2" "\<bar>m\<bar> \<le> l"
      "0 \<le> n'" "n' \<le> 2" "0 \<le> l'" "l' \<le> 2" "\<bar>m'\<bar> \<le> l'"
      and eq: "9 * n + l * l + l + m = 9 * n' + l' * l' + l' + m'"
    have n: "n = n'" using r [OF a(3,4,5)] r [OF a(8,9,10)] eq by linarith
    then have "l * l + l + m = l' * l' + l' + m'" using eq by simp
    then show "n = n' \<and> l = l' \<and> m = m'" using n offset_inj [of l m l' m'] a by simp
  qed
  show "(\<lambda>(n, l, m). 9 * n + l * l + l + m) ` ?A = {0..<27::int}"
  proof (intro set_eqI iffI)
    fix v assume "v \<in> (\<lambda>(n, l, m). 9 * n + l * l + l + m) ` ?A"
    then obtain n l m where "0 \<le> n" "n \<le> 2" "0 \<le> l" "l \<le> 2" "\<bar>m\<bar> \<le> l"
      "v = 9 * n + l * l + l + m" by auto
    then show "v \<in> {0..<27}" using r [of l m] by simp
  next
    fix v :: int assume v: "v \<in> {0..<27}"
    have "0 \<le> v mod 9" "v mod 9 < (2 + 1) * (2 + 1)" by simp_all
    then obtain l m where lm: "0 \<le> l \<and> l \<le> 2 \<and> \<bar>m\<bar> \<le> l \<and> v mod 9 = l * l + l + m"
      using offset_surj [of 2 "v mod 9"] by auto
    have d: "0 \<le> v div 9" "v div 9 \<le> 2" using v by auto
    have "v = 9 * (v div 9) + l * l + l + m" using lm by (simp add: algebra_simps) presburger
    then show "v \<in> (\<lambda>(n, l, m). 9 * n + l * l + l + m) ` ?A"
      using lm d by (intro image_eqI [of _ _ "(v div 9, l, m)"]) auto
  qed
qed


text \<open>
  Claim C4. In a scope whose index tables are built to order \<open>L\<close>, for every family
  with truncation order \<open>lmax \<le> L\<close>: the lookup \<open>lm\<close> maps the valid pairs
  \<open>0 \<le> l \<le> lmax\<close>, \<open>|m| \<le> l\<close> one-to-one onto the offsets \<open>0, \<dots>, count - 1\<close>; for
  each \<open>l\<close> the offsets of \<open>m = -l, \<dots>, l\<close> are \<open>2 l + 1\<close> distinct values, disjoint
  from the offsets of every other \<open>l\<close>; and \<open>count\<close> is the sum of \<open>2 l + 1\<close> over
  \<open>l = 0, \<dots>, lmax\<close>, which is also the count the builder returns for \<open>lmax = L\<close>.
  For the massive families the same holds for \<open>nlm\<close> over the radial orders
  \<open>n = 0, 1, 2\<close> and \<open>l = 0, 1, 2\<close>, with 27 offsets.
\<close>

theorem hierarchy_index_bijection:
  assumes "0 \<le> lmax" "lmax \<le> L"
  shows
   "bij_betw (\<lambda>(l, m). lm (build_index_tables L s) l m)
      {(l, m). 0 \<le> l \<and> l \<le> lmax \<and> \<bar>m\<bar> \<le> l} (Some ` {0..<(lmax + 1) * (lmax + 1)}) \<and>
    (\<forall>l \<in> {0..lmax}. card (lm (build_index_tables L s) l ` {- l..l}) = nat (2 * l + 1)) \<and>
    (\<forall>l \<in> {0..lmax}. \<forall>l' \<in> {0..lmax}. l \<noteq> l' \<longrightarrow>
       lm (build_index_tables L s) l ` {- l..l} \<inter>
       lm (build_index_tables L s) l' ` {- l'..l'} = {}) \<and>
    (lmax + 1) * (lmax + 1) = (\<Sum>l = 0..lmax. 2 * l + 1) \<and>
    snd (lm_build (max L 2) L) = (\<Sum>l = 0..L. 2 * l + 1) \<and>
    bij_betw (\<lambda>(n, l, m). nlm (build_index_tables L s) n l m)
      {(n, l, m). 0 \<le> n \<and> n \<le> 2 \<and> 0 \<le> l \<and> l \<le> 2 \<and> \<bar>m\<bar> \<le> l} (Some ` {0..<27}) \<and>
    (\<forall>n \<in> {0..2}. \<forall>l \<in> {0..2}.
       card (nlm (build_index_tables L s) n l ` {- l..l}) = nat (2 * l + 1)) \<and>
    (\<forall>n \<in> {0..2}. \<forall>l \<in> {0..2}. \<forall>n' \<in> {0..2}. \<forall>l' \<in> {0..2}. (n, l) \<noteq> (n', l') \<longrightarrow>
       nlm (build_index_tables L s) n l ` {- l..l} \<inter>
       nlm (build_index_tables L s) n' l' ` {- l'..l'} = {}) \<and>
    snd (nlm_build (max L 2)) = (\<Sum>n = 0..2::int. \<Sum>l = 0..2. 2 * l + 1)"
proof -
  let ?s = "build_index_tables L s"
  have L: "0 \<le> L" using assms by simp
  have lm_eq: "lm ?s l m = Some (l * l + l + m)" if "0 \<le> l" "l \<le> lmax" "\<bar>m\<bar> \<le> l" for l m
    using lm_built [of l L m s] that assms by simp
  have nlm_eq: "nlm ?s n l m = Some (9 * n + l * l + l + m)"
    if "0 \<le> n" "n \<le> 2" "0 \<le> l" "l \<le> 2" "\<bar>m\<bar> \<le> l" for n l m
    using nlm_built [of n l m L s] that by simp
  have A: "bij_betw (\<lambda>(l, m). lm ?s l m)
      {(l, m). 0 \<le> l \<and> l \<le> lmax \<and> \<bar>m\<bar> \<le> l} (Some ` {0..<(lmax + 1) * (lmax + 1)})"
    by (rule bij_betw_Some_offsets [where g = "\<lambda>(l, m). l * l + l + m"])
      (use lm_eq lm_valid_offsets [OF assms(1)] in auto)
  have B: "\<forall>l \<in> {0..lmax}. card (lm ?s l ` {- l..l}) = nat (2 * l + 1)"
  proof
    fix l assume l: "l \<in> {0..lmax}"
    have "inj_on (lm ?s l) {- l..l}"
      using l lm_eq [of l] by (auto simp: inj_on_def)
    then show "card (lm ?s l ` {- l..l}) = nat (2 * l + 1)"
      by (simp add: card_image)
  qed
  have C: "\<forall>l \<in> {0..lmax}. \<forall>l' \<in> {0..lmax}. l \<noteq> l' \<longrightarrow>
       lm ?s l ` {- l..l} \<inter> lm ?s l' ` {- l'..l'} = {}"
  proof (intro ballI impI)
    fix l l' assume l: "l \<in> {0..lmax}" "l' \<in> {0..lmax}" "l \<noteq> l'"
    show "lm ?s l ` {- l..l} \<inter> lm ?s l' ` {- l'..l'} = {}"
    proof (rule ccontr)
      assume "lm ?s l ` {- l..l} \<inter> lm ?s l' ` {- l'..l'} \<noteq> {}"
      then obtain m m' where m: "m \<in> {- l..l}" "m' \<in> {- l'..l'}" "lm ?s l m = lm ?s l' m'"
        by blast
      have ab: "\<bar>m\<bar> \<le> l" "\<bar>m'\<bar> \<le> l'" "0 \<le> l" "0 \<le> l'" "l \<le> lmax" "l' \<le> lmax"
        using m l by auto
      have "l * l + l + m = l' * l' + l' + m'"
        using lm_eq [of l m] lm_eq [of l' m'] ab m(3) by simp
      then show False using offset_inj [of l m l' m'] ab l(3) by simp
    qed
  qed
  have D: "(lmax + 1) * (lmax + 1) = (\<Sum>l = 0..lmax. 2 * l + 1)"
    using sum_odd [OF assms(1)] by simp
  have E: "snd (lm_build (max L 2) L) = (\<Sum>l = 0..L. 2 * l + 1)"
    using fill_l_count [of 0 L "max L 2" "blank (max L 2) L" 0] L sum_odd [OF L]
    by (simp add: lm_build_def)
  have F: "bij_betw (\<lambda>(n, l, m). nlm ?s n l m)
      {(n, l, m). 0 \<le> n \<and> n \<le> 2 \<and> 0 \<le> l \<and> l \<le> 2 \<and> \<bar>m\<bar> \<le> l} (Some ` {0..<27})"
    by (rule bij_betw_Some_offsets [where g = "\<lambda>(n, l, m). 9 * n + l * l + l + m"])
      (use nlm_eq nlm_valid_offsets in auto)
  have G: "\<forall>n \<in> {0..2}. \<forall>l \<in> {0..2}. card (nlm ?s n l ` {- l..l}) = nat (2 * l + 1)"
  proof (intro ballI)
    fix n l :: int assume n: "n \<in> {0..2}" and l: "l \<in> {0..2}"
    have "inj_on (nlm ?s n l) {- l..l}"
      using n l nlm_eq [of n l] by (auto simp: inj_on_def)
    then show "card (nlm ?s n l ` {- l..l}) = nat (2 * l + 1)"
      by (simp add: card_image)
  qed
  have H: "\<forall>n \<in> {0..2}. \<forall>l \<in> {0..2}. \<forall>n' \<in> {0..2}. \<forall>l' \<in> {0..2}. (n, l) \<noteq> (n', l') \<longrightarrow>
       nlm ?s n l ` {- l..l} \<inter> nlm ?s n' l' ` {- l'..l'} = {}"
  proof (intro ballI impI)
    fix n l n' l' :: int
    assume a: "n \<in> {0..2}" "l \<in> {0..2}" "n' \<in> {0..2}" "l' \<in> {0..2}" "(n, l) \<noteq> (n', l')"
    show "nlm ?s n l ` {- l..l} \<inter> nlm ?s n' l' ` {- l'..l'} = {}"
    proof (rule ccontr)
      assume "nlm ?s n l ` {- l..l} \<inter> nlm ?s n' l' ` {- l'..l'} \<noteq> {}"
      then obtain m m' where m: "m \<in> {- l..l}" "m' \<in> {- l'..l'}"
        "nlm ?s n l m = nlm ?s n' l' m'"
        by blast
      have ab: "\<bar>m\<bar> \<le> l" "\<bar>m'\<bar> \<le> l'" using m by auto
      have "9 * n + l * l + l + m = 9 * n' + l' * l' + l' + m'"
        using nlm_eq [of n l m] nlm_eq [of n' l' m'] a ab m(3) by simp
      moreover have "(n, l, m) \<in> {(n, l, m). 0 \<le> n \<and> n \<le> 2 \<and> 0 \<le> l \<and> l \<le> 2 \<and> \<bar>m\<bar> \<le> l}"
        "(n', l', m') \<in> {(n, l, m). 0 \<le> n \<and> n \<le> 2 \<and> 0 \<le> l \<and> l \<le> 2 \<and> \<bar>m\<bar> \<le> l}"
        using a ab by auto
      ultimately have "(n, l, m) = (n', l', m')"
        using nlm_valid_offsets(1) by (auto simp: inj_on_def)
      then show False using a by simp
    qed
  qed
  have I: "snd (nlm_build (max L 2)) = (\<Sum>n = 0..2::int. \<Sum>l = 0..2. 2 * l + 1)"
    using sum_odd [of 2] by (simp add: nlm_build_planes)
  from A B C D E F G H I show ?thesis by blast
qed


text \<open>The tables of the concrete scope are the ones the builder makes for order 2.\<close>

lemma ex_scope_built: "build_index_tables 2 ex_scope = ex_scope"
proof -
  have idx: "index_m_build 2 = (\<lambda>m. if - 2 \<le> m \<and> m \<le> 2 then Some (m + 2) else None)"
    by (simp add: fun_eq_iff index_m_build_def)
  show ?thesis
    by (simp add: build_index_tables_def lm_build_def nlm_build_planes blank_def fill_l.simps
        fill_m.simps ex_scope_def ex_ppt2_def ex_ppr2_def idx numeral_eq_Suc)
qed

theorem hierarchy_index_bijection_witness:
  "bij_betw (\<lambda>(l, m). lm ex_scope l m) {(l, m). 0 \<le> l \<and> l \<le> 2 \<and> \<bar>m\<bar> \<le> l} (Some ` {0..<9}) \<and>
   card (lm ex_scope 1 ` {- 1..1}) = 3 \<and>
   lm ex_scope 1 ` {- 1..1} \<inter> lm ex_scope 2 ` {- 2..2} = {} \<and>
   bij_betw (\<lambda>(n, l, m). nlm ex_scope n l m)
     {(n, l, m). 0 \<le> n \<and> n \<le> 2 \<and> 0 \<le> l \<and> l \<le> 2 \<and> \<bar>m\<bar> \<le> l} (Some ` {0..<27})"
proof -
  note th = hierarchy_index_bijection [of 2 2 ex_scope, unfolded ex_scope_built]
  have a: "(0::int) \<le> 2" "(2::int) \<le> 2" "(1::int) \<in> {0..2}" "(2::int) \<in> {0..2}" by simp_all
  show ?thesis
    using th [OF a(1,2)] a(3,4) by simp
qed

subsection \<open>Product cache\<close>

lemma set_multipoles: "set (multipoles L) = {(l, m). 0 \<le> l \<and> l \<le> L \<and> \<bar>m\<bar> \<le> l}"
proof (intro set_eqI iffI)
  fix k assume "k \<in> set (multipoles L)"
  then show "k \<in> {(l, m). 0 \<le> l \<and> l \<le> L \<and> \<bar>m\<bar> \<le> l}"
    by (auto simp: multipoles_def)
next
  fix k assume k: "k \<in> {(l, m). 0 \<le> l \<and> l \<le> L \<and> \<bar>m\<bar> \<le> l}"
  obtain l m where lm: "k = (l, m)" by (cases k)
  have "l \<in> {0..L}" "m \<in> {- l..l}" using k lm by auto
  then show "k \<in> set (multipoles L)"
    unfolding multipoles_def lm by (auto intro!: bexI [of _ l])
qed

lemma fill_product_length:
  "fill_product s f ks a = Some a' \<Longrightarrow> length a' = length a"
proof (induction ks arbitrary: a)
  case Nil
  then show ?case by simp
next
  case (Cons k ks)
  obtain l m where k: "k = (l, m)" by (cases k)
  from Cons.prems obtain i v a1 where
    s: "lm s l m = Some i" "f l m = Some v" "wr a i v = Some a1" "fill_product s f ks a1 = Some a'"
    unfolding k by (auto split: bind_splits)
  have "length a1 = length a" using s(3) by (auto simp: wr_def split: if_splits)
  then show ?case using Cons.IH [OF s(4)] by simp
qed

lemma fill_product_other:
  "fill_product s f ks a = Some a' \<Longrightarrow> \<forall>(l, m) \<in> set ks. lm s l m \<noteq> Some i \<Longrightarrow>
   rd a' i = rd a i"
proof (induction ks arbitrary: a)
  case Nil
  then show ?case by simp
next
  case (Cons k ks)
  obtain l m where k: "k = (l, m)" by (cases k)
  from Cons.prems(1) obtain j v a1 where
    s: "lm s l m = Some j" "f l m = Some v" "wr a j v = Some a1" "fill_product s f ks a1 = Some a'"
    unfolding k by (auto split: bind_splits)
  have "j \<noteq> i" using Cons.prems(2) s(1) k by auto
  then have "rd a1 i = rd a i" using s(3) by (auto simp: wr_def rd_def split: if_splits)
  moreover have "rd a' i = rd a1 i" using Cons.IH [OF s(4)] Cons.prems(2) by simp
  ultimately show ?case by simp
qed

lemma fill_product_get:
  "fill_product s f ks a = Some a' \<Longrightarrow> inj_on (\<lambda>(l, m). lm s l m) (set ks) \<Longrightarrow>
   (l, m) \<in> set ks \<Longrightarrow> f l m \<noteq> None \<and> lm s l m \<bind> rd a' = f l m"
proof (induction ks arbitrary: a)
  case Nil
  then show ?case by simp
next
  case (Cons k ks)
  obtain l0 m0 where k: "k = (l0, m0)" by (cases k)
  from Cons.prems(1) obtain j v a1 where
    s: "lm s l0 m0 = Some j" "f l0 m0 = Some v" "wr a j v = Some a1"
      "fill_product s f ks a1 = Some a'"
    unfolding k by (auto split: bind_splits)
  have inj: "inj_on (\<lambda>(l, m). lm s l m) (set ks)"
    using Cons.prems(2) by (auto simp: inj_on_def)
  show ?case
  proof (cases "(l, m) \<in> set ks")
    case True
    then show ?thesis using Cons.IH [OF s(4) inj] by simp
  next
    case False
    then have lm: "l = l0" "m = m0" using Cons.prems(3) k by auto
    have "\<forall>(l', m') \<in> set ks. lm s l' m' \<noteq> Some j"
    proof (clarify)
      fix l' m' assume a: "(l', m') \<in> set ks" "lm s l' m' = Some j"
      then have "(l', m') = (l0, m0)"
        using Cons.prems(2) s(1) k by (auto simp: inj_on_def)
      then show False using a(1) False lm by simp
    qed
    then have "rd a' j = rd a1 j" using fill_product_other [OF s(4)] by simp
    also have "\<dots> = Some v" using s(3) by (auto simp: wr_def rd_def split: if_splits)
    finally show ?thesis using s(1,2) lm by simp
  qed
qed

lemma fill_product_ok:
  "\<forall>(l, m) \<in> set ks. \<exists>i. lm s l m = Some i \<and> 0 \<le> i \<and> i < int (length a) \<Longrightarrow>
   \<forall>(l, m) \<in> set ks. f l m \<noteq> None \<Longrightarrow> \<exists>a'. fill_product s f ks a = Some a'"
proof (induction ks arbitrary: a)
  case Nil
  then show ?case by simp
next
  case (Cons k ks)
  obtain l m where k: "k = (l, m)" by (cases k)
  obtain i v where s: "lm s l m = Some i" "0 \<le> i" "i < int (length a)" "f l m = Some v"
    using Cons.prems k by auto
  let ?a = "a[nat i := v]"
  have w: "wr a i v = Some ?a" using s by (simp add: wr_def)
  have "\<exists>a'. fill_product s f ks ?a = Some a'"
    using Cons.prems by (intro Cons.IH) auto
  then show ?case using s w k by simp
qed


lemma fill_product_cache:
  assumes bij: "bij_betw (\<lambda>(l, m). lm s l m) {(l, m). 0 \<le> l \<and> l \<le> L \<and> \<bar>m\<bar> \<le> l} (Some ` {0..<N})"
    and len: "N \<le> int (length a)"
    and def: "\<forall>(l, m) \<in> {(l, m). 0 \<le> l \<and> l \<le> L \<and> \<bar>m\<bar> \<le> l}. f l m \<noteq> None"
  shows "\<exists>a'. fill_product s f (multipoles L) a = Some a' \<and>
    (\<forall>l m. 0 \<le> l \<and> l \<le> L \<and> \<bar>m\<bar> \<le> l \<longrightarrow> lm s l m \<bind> rd a' = f l m)"
proof -
  let ?V = "{(l, m). 0 \<le> l \<and> l \<le> L \<and> \<bar>m\<bar> \<le> l}"
  have inj: "inj_on (\<lambda>(l, m). lm s l m) (set (multipoles L))"
    using bij by (simp add: set_multipoles bij_betw_def)
  have off: "\<forall>(l, m) \<in> set (multipoles L). \<exists>i. lm s l m = Some i \<and> 0 \<le> i \<and> i < int (length a)"
  proof (clarify)
    fix l m assume "(l, m) \<in> set (multipoles L)"
    then have "(\<lambda>(l, m). lm s l m) (l, m) \<in> Some ` {0..<N}"
      using bij unfolding set_multipoles bij_betw_def by blast
    then show "\<exists>i. lm s l m = Some i \<and> 0 \<le> i \<and> i < int (length a)"
      using len by auto
  qed
  have "\<forall>(l, m) \<in> set (multipoles L). f l m \<noteq> None"
    using def by (simp add: set_multipoles)
  then obtain a' where a': "fill_product s f (multipoles L) a = Some a'"
    using fill_product_ok [OF off] by blast
  have "lm s l m \<bind> rd a' = f l m" if "0 \<le> l \<and> l \<le> L \<and> \<bar>m\<bar> \<le> l" for l m
    using fill_product_get [OF a' inj, of l m] that by (simp add: set_multipoles)
  then show ?thesis using a' by blast
qed

lemma product_defined:
  "c s l (Atom m) m \<noteq> None \<Longrightarrow> ra s l m \<noteq> None \<Longrightarrow> rb s l m \<noteq> None \<Longrightarrow>
   product c ra rb s l m \<noteq> None"
  by (auto simp: product_def c_times_def)

text \<open>
  Claim C3. Let the index table be a bijection from the multipoles \<open>l \<le> L\<close> onto the
  offsets below \<open>N\<close>, let the product arrays have at least \<open>N\<close> entries, and let the
  coupling and rotation coefficients of these multipoles be readable. Then the rebuild
  of the product cache succeeds, it leaves the coupling and rotation accessors as they
  are, and afterwards, for every multipole \<open>(l,m)\<close> with \<open>0 \<le> l \<le> L\<close> and \<open>|m| \<le> l\<close>
  (in particular for \<open>l = 0, 1, 2\<close>), every product accessor of the pair \<open>ab\<close> is the
  coupling coefficient at \<open>(l,m,m)\<close> times the rotation coefficients of legs \<open>a\<close> and
  \<open>b\<close> at \<open>(l,m)\<close>.
\<close>

theorem product_cache_entries:
  assumes bij: "bij_betw (\<lambda>(l, m). lm s l m) {(l, m). 0 \<le> l \<and> l \<le> L \<and> \<bar>m\<bar> \<le> l} (Some ` {0..<N})"
    and len: "N \<le> int (length (c_minus_product_12 (ppw2 s)))"
      "N \<le> int (length (c_minus_product_21 (ppw2 s)))"
      "N \<le> int (length (c_plus_product_12 (ppw2 s)))"
      "N \<le> int (length (c_plus_product_21 (ppw2 s)))"
      "N \<le> int (length (c_minus_product_11 (ppw2 s)))"
      "N \<le> int (length (c_minus_product_22 (ppw2 s)))"
      "N \<le> int (length (c_plus_product_11 (ppw2 s)))"
      "N \<le> int (length (c_plus_product_22 (ppw2 s)))"
    and def: "\<forall>(l, m) \<in> {(l, m). 0 \<le> l \<and> l \<le> L \<and> \<bar>m\<bar> \<le> l}.
      c_minus s l (Atom m) m \<noteq> None \<and> c_plus s l (Atom m) m \<noteq> None \<and>
      rot_1 s l m \<noteq> None \<and> rot_2 s l m \<noteq> None"
  shows "\<exists>s'. build_product_cache L s = Some s' \<and>
    (\<forall>l m1 m. c_minus s' l m1 m = c_minus s l m1 m \<and> c_plus s' l m1 m = c_plus s l m1 m \<and>
       rot_1 s' l m = rot_1 s l m \<and> rot_2 s' l m = rot_2 s l m) \<and>
    (\<forall>a b. c_times s' a b = c_times s a b) \<and>
    (\<forall>l m. 0 \<le> l \<and> l \<le> L \<and> \<bar>m\<bar> \<le> l \<longrightarrow>
       c_minus_12 s' l m \<noteq> None \<and>
       c_minus_12 s' l m = c_times s' (c_times s' (c_minus s' l (Atom m) m) (rot_1 s' l m)) (rot_2 s' l m) \<and>
       c_minus_21 s' l m = c_times s' (c_times s' (c_minus s' l (Atom m) m) (rot_2 s' l m)) (rot_1 s' l m) \<and>
       c_plus_12 s' l m = c_times s' (c_times s' (c_plus s' l (Atom m) m) (rot_1 s' l m)) (rot_2 s' l m) \<and>
       c_plus_21 s' l m = c_times s' (c_times s' (c_plus s' l (Atom m) m) (rot_2 s' l m)) (rot_1 s' l m) \<and>
       c_minus_11 s' l m = c_times s' (c_times s' (c_minus s' l (Atom m) m) (rot_1 s' l m)) (rot_1 s' l m) \<and>
       c_minus_22 s' l m = c_times s' (c_times s' (c_minus s' l (Atom m) m) (rot_2 s' l m)) (rot_2 s' l m) \<and>
       c_plus_11 s' l m = c_times s' (c_times s' (c_plus s' l (Atom m) m) (rot_1 s' l m)) (rot_1 s' l m) \<and>
       c_plus_22 s' l m = c_times s' (c_times s' (c_plus s' l (Atom m) m) (rot_2 s' l m)) (rot_2 s' l m))"
proof -
  let ?V = "{(l, m). 0 \<le> l \<and> l \<le> L \<and> \<bar>m\<bar> \<le> l}"
  have dm: "\<forall>(l, m) \<in> ?V. c_minus s l (Atom m) m \<noteq> None"
    and dp: "\<forall>(l, m) \<in> ?V. c_plus s l (Atom m) m \<noteq> None"
    and d1: "\<forall>(l, m) \<in> ?V. rot_1 s l m \<noteq> None"
    and d2: "\<forall>(l, m) \<in> ?V. rot_2 s l m \<noteq> None"
    using def by blast+
  have d: "\<forall>(l, m) \<in> ?V. product c ra rb s l m \<noteq> None"
    if "\<forall>(l, m) \<in> ?V. c s l (Atom m) m \<noteq> None" "\<forall>(l, m) \<in> ?V. ra s l m \<noteq> None"
      "\<forall>(l, m) \<in> ?V. rb s l m \<noteq> None" for c ra rb
  proof -
    have "product c ra rb s l m \<noteq> None" if v: "(l, m) \<in> ?V" for l m
    proof -
      have "c s l (Atom m) m \<noteq> None" "ra s l m \<noteq> None" "rb s l m \<noteq> None"
        using \<open>\<forall>(l, m) \<in> ?V. c s l (Atom m) m \<noteq> None\<close> \<open>\<forall>(l, m) \<in> ?V. ra s l m \<noteq> None\<close>
          \<open>\<forall>(l, m) \<in> ?V. rb s l m \<noteq> None\<close> v by blast+
      then show ?thesis by (rule product_defined)
    qed
    then show ?thesis by blast
  qed
  obtain m12 where m12:
    "fill_product s (product c_minus rot_1 rot_2 s) (multipoles L) (c_minus_product_12 (ppw2 s)) = Some m12"
    "\<And>l m. 0 \<le> l \<and> l \<le> L \<and> \<bar>m\<bar> \<le> l \<Longrightarrow> lm s l m \<bind> rd m12 = product c_minus rot_1 rot_2 s l m"
    using fill_product_cache [OF bij len(1) d [of c_minus rot_1 rot_2, OF dm d1 d2]] by blast
  obtain m21 where m21:
    "fill_product s (product c_minus rot_2 rot_1 s) (multipoles L) (c_minus_product_21 (ppw2 s)) = Some m21"
    "\<And>l m. 0 \<le> l \<and> l \<le> L \<and> \<bar>m\<bar> \<le> l \<Longrightarrow> lm s l m \<bind> rd m21 = product c_minus rot_2 rot_1 s l m"
    using fill_product_cache [OF bij len(2) d [of c_minus rot_2 rot_1, OF dm d2 d1]] by blast
  obtain p12 where p12:
    "fill_product s (product c_plus rot_1 rot_2 s) (multipoles L) (c_plus_product_12 (ppw2 s)) = Some p12"
    "\<And>l m. 0 \<le> l \<and> l \<le> L \<and> \<bar>m\<bar> \<le> l \<Longrightarrow> lm s l m \<bind> rd p12 = product c_plus rot_1 rot_2 s l m"
    using fill_product_cache [OF bij len(3) d [of c_plus rot_1 rot_2, OF dp d1 d2]] by blast
  obtain p21 where p21:
    "fill_product s (product c_plus rot_2 rot_1 s) (multipoles L) (c_plus_product_21 (ppw2 s)) = Some p21"
    "\<And>l m. 0 \<le> l \<and> l \<le> L \<and> \<bar>m\<bar> \<le> l \<Longrightarrow> lm s l m \<bind> rd p21 = product c_plus rot_2 rot_1 s l m"
    using fill_product_cache [OF bij len(4) d [of c_plus rot_2 rot_1, OF dp d2 d1]] by blast
  obtain m11 where m11:
    "fill_product s (product c_minus rot_1 rot_1 s) (multipoles L) (c_minus_product_11 (ppw2 s)) = Some m11"
    "\<And>l m. 0 \<le> l \<and> l \<le> L \<and> \<bar>m\<bar> \<le> l \<Longrightarrow> lm s l m \<bind> rd m11 = product c_minus rot_1 rot_1 s l m"
    using fill_product_cache [OF bij len(5) d [of c_minus rot_1 rot_1, OF dm d1 d1]] by blast
  obtain m22 where m22:
    "fill_product s (product c_minus rot_2 rot_2 s) (multipoles L) (c_minus_product_22 (ppw2 s)) = Some m22"
    "\<And>l m. 0 \<le> l \<and> l \<le> L \<and> \<bar>m\<bar> \<le> l \<Longrightarrow> lm s l m \<bind> rd m22 = product c_minus rot_2 rot_2 s l m"
    using fill_product_cache [OF bij len(6) d [of c_minus rot_2 rot_2, OF dm d2 d2]] by blast
  obtain p11 where p11:
    "fill_product s (product c_plus rot_1 rot_1 s) (multipoles L) (c_plus_product_11 (ppw2 s)) = Some p11"
    "\<And>l m. 0 \<le> l \<and> l \<le> L \<and> \<bar>m\<bar> \<le> l \<Longrightarrow> lm s l m \<bind> rd p11 = product c_plus rot_1 rot_1 s l m"
    using fill_product_cache [OF bij len(7) d [of c_plus rot_1 rot_1, OF dp d1 d1]] by blast
  obtain p22 where p22:
    "fill_product s (product c_plus rot_2 rot_2 s) (multipoles L) (c_plus_product_22 (ppw2 s)) = Some p22"
    "\<And>l m. 0 \<le> l \<and> l \<le> L \<and> \<bar>m\<bar> \<le> l \<Longrightarrow> lm s l m \<bind> rd p22 = product c_plus rot_2 rot_2 s l m"
    using fill_product_cache [OF bij len(8) d [of c_plus rot_2 rot_2, OF dp d2 d2]] by blast
  define s' where "s' = s\<lparr>ppw2 := (ppw2 s)\<lparr>
       c_minus_product_12 := m12, c_minus_product_21 := m21,
       c_plus_product_12 := p12, c_plus_product_21 := p21,
       c_minus_product_11 := m11, c_minus_product_22 := m22,
       c_plus_product_11 := p11, c_plus_product_22 := p22\<rparr>\<rparr>"
  have built: "build_product_cache L s = Some s'"
    unfolding build_product_cache_def s'_def
    by (simp only: m12(1) m21(1) p12(1) p21(1) m11(1) m22(1) p11(1) p22(1) bind.bind_lunit)
  have tabs: "ppt2 s' = ppt2 s" "ppr2 s' = ppr2 s" "rounding s' = rounding s"
    "rotation_1 (ppw2 s') = rotation_1 (ppw2 s)"
    "rotation_1_minus (ppw2 s') = rotation_1_minus (ppw2 s)"
    "rotation_2 (ppw2 s') = rotation_2 (ppw2 s)"
    "rotation_2_minus (ppw2 s') = rotation_2_minus (ppw2 s)"
    by (simp_all add: s'_def)
  have arrs: "c_minus_product_12 (ppw2 s') = m12" "c_minus_product_21 (ppw2 s') = m21"
    "c_plus_product_12 (ppw2 s') = p12" "c_plus_product_21 (ppw2 s') = p21"
    "c_minus_product_11 (ppw2 s') = m11" "c_minus_product_22 (ppw2 s') = m22"
    "c_plus_product_11 (ppw2 s') = p11" "c_plus_product_22 (ppw2 s') = p22"
    by (simp_all add: s'_def)
  have lm_same: "lm s' l m = lm s l m" for l m
    by (simp add: lm_def tabs)
  have same: "c_minus s' l m1 m = c_minus s l m1 m \<and> c_plus s' l m1 m = c_plus s l m1 m \<and>
    rot_1 s' l m = rot_1 s l m \<and> rot_2 s' l m = rot_2 s l m" for l m1 m
  proof -
    have funs: "lm s' = lm s" "lm_quad s' = lm_quad s"
      by (simp_all add: fun_eq_iff lm_def lm_quad_def tabs)
    show ?thesis
      unfolding c_minus_def c_plus_def coupling_def rot_1_def rot_2_def funs tabs by simp
  qed
  have times: "c_times s' a b = c_times s a b" for a b
    by (simp add: c_times_def tabs)
  have entries: "c_minus_12 s' l m \<noteq> None \<and>
       c_minus_12 s' l m = c_times s' (c_times s' (c_minus s' l (Atom m) m) (rot_1 s' l m)) (rot_2 s' l m) \<and>
       c_minus_21 s' l m = c_times s' (c_times s' (c_minus s' l (Atom m) m) (rot_2 s' l m)) (rot_1 s' l m) \<and>
       c_plus_12 s' l m = c_times s' (c_times s' (c_plus s' l (Atom m) m) (rot_1 s' l m)) (rot_2 s' l m) \<and>
       c_plus_21 s' l m = c_times s' (c_times s' (c_plus s' l (Atom m) m) (rot_2 s' l m)) (rot_1 s' l m) \<and>
       c_minus_11 s' l m = c_times s' (c_times s' (c_minus s' l (Atom m) m) (rot_1 s' l m)) (rot_1 s' l m) \<and>
       c_minus_22 s' l m = c_times s' (c_times s' (c_minus s' l (Atom m) m) (rot_2 s' l m)) (rot_2 s' l m) \<and>
       c_plus_11 s' l m = c_times s' (c_times s' (c_plus s' l (Atom m) m) (rot_1 s' l m)) (rot_1 s' l m) \<and>
       c_plus_22 s' l m = c_times s' (c_times s' (c_plus s' l (Atom m) m) (rot_2 s' l m)) (rot_2 s' l m)"
    if v: "0 \<le> l \<and> l \<le> L \<and> \<bar>m\<bar> \<le> l" for l m
  proof -
    have "product c_minus rot_1 rot_2 s l m \<noteq> None"
      using d [of c_minus rot_1 rot_2, OF dm d1 d2] v by auto
    then show ?thesis
      using m12(2) [OF v] m21(2) [OF v] p12(2) [OF v] p21(2) [OF v]
        m11(2) [OF v] m22(2) [OF v] p11(2) [OF v] p22(2) [OF v]
      by (simp add: c_minus_12_def c_minus_21_def c_plus_12_def c_plus_21_def
          c_minus_11_def c_minus_22_def c_plus_11_def c_plus_22_def lm_same arrs same times
          product_def)
  qed
  show ?thesis
  proof (intro exI [of _ s'] conjI allI impI)
    show "build_product_cache L s = Some s'" by (rule built)
  qed (use same times entries in blast)+
qed


lemma ex_scope_lm_bij:
  "bij_betw (\<lambda>(l, m). lm ex_scope l m) {(l, m). 0 \<le> l \<and> l \<le> 2 \<and> \<bar>m\<bar> \<le> l} (Some ` {0..<9})"
proof -
  have "bij_betw (\<lambda>(l, m). lm (build_index_tables 2 ex_scope) l m)
      {(l, m). 0 \<le> l \<and> l \<le> 2 \<and> \<bar>m\<bar> \<le> l} (Some ` {0..<(2 + 1) * (2 + 1)})"
    by (rule bij_betw_Some_offsets [where g = "\<lambda>(l, m). l * l + l + m"])
      (use lm_built [of _ 2 _ ex_scope] lm_valid_offsets [of 2] in auto)
  then show ?thesis by (simp add: ex_scope_built)
qed

lemma multipoles_2:
  "multipoles 2 = [(0, 0), (1, - 1), (1, 0), (1, 1), (2, - 2), (2, - 1), (2, 0), (2, 1), (2, 2)]"
  by (simp add: multipoles_def upto_rec1)

theorem product_cache_entries_witness:
  "\<exists>s'. build_product_cache 2 ex_scope = Some s' \<and>
     c_minus_12 s' 2 1 = Some (Finite 375) \<and> c_plus_21 s' 1 (- 1) = Some (Finite 36) \<and>
     c_minus_11 s' 2 (- 1) = Some (Finite (275 / 2)) \<and>
     c_plus_22 s' 0 0 = Some (Finite (1 / 2))"
proof -
  have len: "9 \<le> int (length (c_minus_product_12 (ppw2 ex_scope)))"
    "9 \<le> int (length (c_minus_product_21 (ppw2 ex_scope)))"
    "9 \<le> int (length (c_plus_product_12 (ppw2 ex_scope)))"
    "9 \<le> int (length (c_plus_product_21 (ppw2 ex_scope)))"
    "9 \<le> int (length (c_minus_product_11 (ppw2 ex_scope)))"
    "9 \<le> int (length (c_minus_product_22 (ppw2 ex_scope)))"
    "9 \<le> int (length (c_plus_product_11 (ppw2 ex_scope)))"
    "9 \<le> int (length (c_plus_product_22 (ppw2 ex_scope)))"
    by (simp_all add: ex_scope_sel ex_ppw2_def)
  have "\<forall>(l, m) \<in> set (multipoles 2).
      c_minus ex_scope l (Atom m) m \<noteq> None \<and> c_plus ex_scope l (Atom m) m \<noteq> None \<and>
      rot_1 ex_scope l m \<noteq> None \<and> rot_2 ex_scope l m \<noteq> None"
    by (simp add: multipoles_2 c_minus_def c_plus_def coupling_def rot_1_def rot_2_def ex_eval
        del: not_None_eq)
  then have def: "\<forall>(l, m) \<in> {(l, m). 0 \<le> l \<and> l \<le> 2 \<and> \<bar>m\<bar> \<le> l}.
      c_minus ex_scope l (Atom m) m \<noteq> None \<and> c_plus ex_scope l (Atom m) m \<noteq> None \<and>
      rot_1 ex_scope l m \<noteq> None \<and> rot_2 ex_scope l m \<noteq> None"
    by (simp add: set_multipoles)
  obtain s' where s': "build_product_cache 2 ex_scope = Some s'"
    and same: "\<And>l m1 m. c_minus s' l m1 m = c_minus ex_scope l m1 m \<and>
       c_plus s' l m1 m = c_plus ex_scope l m1 m \<and>
       rot_1 s' l m = rot_1 ex_scope l m \<and> rot_2 s' l m = rot_2 ex_scope l m"
    and times: "\<And>a b. c_times s' a b = c_times ex_scope a b"
    and entries: "\<And>l m. 0 \<le> l \<and> l \<le> 2 \<and> \<bar>m\<bar> \<le> l \<Longrightarrow>
       c_minus_12 s' l m = c_times s' (c_times s' (c_minus s' l (Atom m) m) (rot_1 s' l m)) (rot_2 s' l m) \<and>
       c_plus_21 s' l m = c_times s' (c_times s' (c_plus s' l (Atom m) m) (rot_2 s' l m)) (rot_1 s' l m) \<and>
       c_minus_11 s' l m = c_times s' (c_times s' (c_minus s' l (Atom m) m) (rot_1 s' l m)) (rot_1 s' l m) \<and>
       c_plus_22 s' l m = c_times s' (c_times s' (c_plus s' l (Atom m) m) (rot_2 s' l m)) (rot_2 s' l m)"
    using product_cache_entries [OF ex_scope_lm_bij len def] by blast
  have ev:
    "c_times ex_scope (c_times ex_scope (c_minus ex_scope 2 (Atom 1) 1) (rot_1 ex_scope 2 1))
       (rot_2 ex_scope 2 1) = Some (Finite 375)"
    "c_times ex_scope (c_times ex_scope (c_plus ex_scope 1 (Atom (- 1)) (- 1))
       (rot_2 ex_scope 1 (- 1))) (rot_1 ex_scope 1 (- 1)) = Some (Finite 36)"
    "c_times ex_scope (c_times ex_scope (c_minus ex_scope 2 (Atom (- 1)) (- 1))
       (rot_1 ex_scope 2 (- 1))) (rot_1 ex_scope 2 (- 1)) = Some (Finite (275 / 2))"
    "c_times ex_scope (c_times ex_scope (c_plus ex_scope 0 (Atom 0) 0) (rot_2 ex_scope 0 0))
       (rot_2 ex_scope 0 0) = Some (Finite (1 / 2))"
    by (simp_all add: c_minus_def c_plus_def coupling_def rot_1_def rot_2_def c_times_def ex_eval)
  have "c_minus_12 s' 2 1 = Some (Finite 375)" "c_plus_21 s' 1 (- 1) = Some (Finite 36)"
    "c_minus_11 s' 2 (- 1) = Some (Finite (275 / 2))" "c_plus_22 s' 0 0 = Some (Finite (1 / 2))"
    using entries [of 2 1] entries [of 1 "- 1"] entries [of 2 "- 1"] entries [of 0 0]
    by (simp_all add: same times ev)
  then show ?thesis using s' by blast
qed

subsection \<open>Rotation coefficients\<close>

text \<open>
  Claim C2, as amended. For each leg and all ints \<open>l\<close>, \<open>m\<close>: the rotation accessor
  is 0 when \<open>l < 0\<close>; when \<open>l \<ge> 0\<close> and \<open>m\<close> is not \<open>INT_MIN\<close>, it is 0 for
  \<open>|m| > l\<close>, the entry of the leg's main table at \<open>lm_quad(l,m)\<close> for \<open>0 \<le> m \<le> l\<close>,
  and the entry of the leg's mirrored table at \<open>lm_quad(l,|m|)\<close> for \<open>-l \<le> m < 0\<close>.
  Hence for valid \<open>l\<close> and \<open>m > 0\<close> the accessor at \<open>-m\<close> is the mirrored table's
  entry at \<open>(l,m)\<close>. At \<open>l \<ge> 0\<close> and \<open>m = INT_MIN\<close> the macro evaluates
  \<^verbatim>\<open>abs(INT_MIN)\<close>, which is undefined, and has no value.
\<close>

theorem rotation_accessor:
  "rot_1 s l m =
     (if l < 0 then Some (Finite 0)
      else if m = INT_MIN then None
      else if \<bar>m\<bar> > l then Some (Finite 0)
      else if m < 0 then lm_quad s l \<bar>m\<bar> \<bind> rd (rotation_1_minus (ppw2 s))
      else lm_quad s l m \<bind> rd (rotation_1 (ppw2 s))) \<and>
   rot_2 s l m =
     (if l < 0 then Some (Finite 0)
      else if m = INT_MIN then None
      else if \<bar>m\<bar> > l then Some (Finite 0)
      else if m < 0 then lm_quad s l \<bar>m\<bar> \<bind> rd (rotation_2_minus (ppw2 s))
      else lm_quad s l m \<bind> rd (rotation_2 (ppw2 s))) \<and>
   (0 \<le> l \<and> 0 < m \<and> m \<le> l \<and> m \<le> INT_MAX \<longrightarrow>
      rot_1 s l (- m) = lm_quad s l m \<bind> rd (rotation_1_minus (ppw2 s)) \<and>
      rot_2 s l (- m) = lm_quad s l m \<bind> rd (rotation_2_minus (ppw2 s)))"
  by (auto simp: rot_1_def rot_2_def c_abs_def INT_MIN_def INT_MAX_def)

theorem rotation_accessor_witness:
  "rot_1 ex_scope 2 3 = Some (Finite 0) \<and> rot_2 ex_scope (- 1) 0 = Some (Finite 0) \<and>
   rot_1 ex_scope (- 1) (- 2147483648) = Some (Finite 0) \<and>
   rot_1 ex_scope 2 1 = Some (Finite 5) \<and> rot_2 ex_scope 2 1 = Some (Finite 10) \<and>
   rot_1 ex_scope 2 (- 1) = Some (Finite (- 5)) \<and> rot_2 ex_scope 2 (- 1) = Some (Finite (- 10))"
  using rotation_accessor [of ex_scope 2 3] rotation_accessor [of ex_scope "- 1" 0]
    rotation_accessor [of ex_scope 2 1] rotation_accessor [of ex_scope "- 1" "- 2147483648"]
  by (simp add: ex_eval)

text \<open>
  The claim as stated fails at \<open>m = INT_MIN\<close>: there \<open>|m| > l\<close>, but for \<open>l \<ge> 0\<close> the
  macro does not yield 0.
\<close>

theorem rotation_accessor_counterexample:
  "rot_1 ex_scope 0 (- 2147483648) \<noteq> Some (Finite 0) \<and>
   rot_2 ex_scope 2 (- 2147483648) \<noteq> Some (Finite 0)"
  by (simp add: rot_1_def rot_2_def ex_eval)

subsection \<open>Derivative writes\<close>

text \<open>
  Claim C5. For every family and all integers \<open>l\<close>, \<open>m\<close> (and \<open>n\<close>), an assignment
  through the derivative accessor tests neither \<open>l\<close> nor \<open>m\<close> and has no zero
  fallback: whatever the arguments, it reads the offset from the index table and stores
  into \<^verbatim>\<open>dy\<close> at the family's base offset plus that offset. The only failures are
  the out-of-bounds accesses themselves.
\<close>

theorem derivative_writes_unchecked:
  "dI s l m v =
     (case lm s l m of None \<Rightarrow> None
      | Some off \<Rightarrow>
          (let i = index_pt2_monopole_g (pv (ppw2 s)) + off in
           if 0 \<le> i \<and> i < int (length (dy_buf s))
           then Some (s\<lparr>dy_buf := (dy_buf s)[nat i := v]\<rparr>) else None)) \<and>
   dE s l m v =
     (case lm s l m of None \<Rightarrow> None
      | Some off \<Rightarrow>
          (let i = index_pt2_monopole_E (pv (ppw2 s)) + off in
           if 0 \<le> i \<and> i < int (length (dy_buf s))
           then Some (s\<lparr>dy_buf := (dy_buf s)[nat i := v]\<rparr>) else None)) \<and>
   dB s l m v =
     (case lm s l m of None \<Rightarrow> None
      | Some off \<Rightarrow>
          (let i = index_pt2_monopole_B (pv (ppw2 s)) + off in
           if 0 \<le> i \<and> i < int (length (dy_buf s))
           then Some (s\<lparr>dy_buf := (dy_buf s)[nat i := v]\<rparr>) else None)) \<and>
   dN s l m v =
     (case lm s l m of None \<Rightarrow> None
      | Some off \<Rightarrow>
          (let i = index_pt2_monopole_ur (pv (ppw2 s)) + off in
           if 0 \<le> i \<and> i < int (length (dy_buf s))
           then Some (s\<lparr>dy_buf := (dy_buf s)[nat i := v]\<rparr>) else None)) \<and>
   db s n l m v =
     (case nlm s n l m of None \<Rightarrow> None
      | Some off \<Rightarrow>
          (let i = index_pt2_monopole_b (pv (ppw2 s)) + off in
           if 0 \<le> i \<and> i < int (length (dy_buf s))
           then Some (s\<lparr>dy_buf := (dy_buf s)[nat i := v]\<rparr>) else None)) \<and>
   dcdm s n l m v =
     (case nlm s n l m of None \<Rightarrow> None
      | Some off \<Rightarrow>
          (let i = index_pt2_monopole_cdm (pv (ppw2 s)) + off in
           if 0 \<le> i \<and> i < int (length (dy_buf s))
           then Some (s\<lparr>dy_buf := (dy_buf s)[nat i := v]\<rparr>) else None))"
proof -
  have store: "assign_dy s i v =
      (if 0 \<le> i \<and> i < int (length (dy_buf s))
       then Some (s\<lparr>dy_buf := (dy_buf s)[nat i := v]\<rparr>) else None)" for i
    by (simp add: assign_dy_def wr_def)
  show ?thesis
    by (cases "lm s l m"; cases "nlm s n l m")
      (simp_all add: dI_def dE_def dB_def dN_def db_def dcdm_def store Let_def
        split del: if_split)
qed

text \<open>
  In the concrete scope the neutrino read at \<open>(2,0)\<close> is 0, beyond the neutrinos'
  truncation order 1, while the write at \<open>(2,0)\<close> stores into slot \<open>27 + 6\<close>, which
  belongs to the baryons; with polarisation off the E read at \<open>(1,0)\<close> is 0 and the
  write stores into slot \<open>9 + 2\<close>; the write at \<open>(3,0)\<close> reads the index table past
  its last row.
\<close>

theorem derivative_writes_unchecked_witness:
  "N_rd ex_scope 2 0 = Some (Finite 0) \<and>
   dN ex_scope 2 0 (Finite 7) =
     Some (ex_scope\<lparr>dy_buf := (replicate 85 (Finite 0))[33 := Finite 7]\<rparr>) \<and>
   E_rd ex_scope 1 0 = Some (Finite 0) \<and>
   dE ex_scope 1 0 (Finite 7) =
     Some (ex_scope\<lparr>dy_buf := (replicate 85 (Finite 0))[11 := Finite 7]\<rparr>) \<and>
   I_rd ex_scope 3 0 = Some (Finite 0) \<and> dI ex_scope 3 0 (Finite 7) = None"
  using derivative_writes_unchecked [of ex_scope 2 0 "Finite 7" 0]
    derivative_writes_unchecked [of ex_scope 1 0 "Finite 7" 0]
    derivative_writes_unchecked [of ex_scope 3 0 "Finite 7" 0]
  by (simp add: N_rd_def E_rd_def I_rd_def ex_eval)

subsection \<open>Debug selector\<close>

text \<open>
  Claim C6. The debug macro leaves the scope as it is; it appends its record to the
  output exactly when the three wavemode indices of the workspace equal the three
  debug indices; on any mismatch scope and output are unchanged; and what it does
  depends on no part of the scope but these six indices.
\<close>

theorem debug_selector:
  "fst (printf_k_debug args (s, out)) = s \<and>
   (snd (printf_k_debug args (s, out)) = out @ [args] \<longleftrightarrow>
      index_k1 (ppw2 s) = index_k1_debug (ppt2 s) \<and>
      index_k2 (ppw2 s) = index_k2_debug (ppt2 s) \<and>
      index_k3 (ppw2 s) = index_k3_debug (ppt2 s)) \<and>
   (\<not> (index_k1 (ppw2 s) = index_k1_debug (ppt2 s) \<and>
       index_k2 (ppw2 s) = index_k2_debug (ppt2 s) \<and>
       index_k3 (ppw2 s) = index_k3_debug (ppt2 s)) \<longrightarrow>
      printf_k_debug args (s, out) = (s, out)) \<and>
   (index_k1 (ppw2 s') = index_k1 (ppw2 s) \<and> index_k2 (ppw2 s') = index_k2 (ppw2 s) \<and>
    index_k3 (ppw2 s') = index_k3 (ppw2 s) \<and>
    index_k1_debug (ppt2 s') = index_k1_debug (ppt2 s) \<and>
    index_k2_debug (ppt2 s') = index_k2_debug (ppt2 s) \<and>
    index_k3_debug (ppt2 s') = index_k3_debug (ppt2 s) \<longrightarrow>
      snd (printf_k_debug args (s', out)) = snd (printf_k_debug args (s, out)))"
  by (simp add: printf_k_debug_def)

theorem debug_selector_witness:
  "printf_k_debug ''k'' (ex_scope, [''a'']) = (ex_scope, [''a'', ''k'']) \<and>
   printf_k_debug ''k'' (ex_scope\<lparr>ppw2 := ex_ppw2\<lparr>index_k3 := 5\<rparr>\<rparr>, [''a'']) =
     (ex_scope\<lparr>ppw2 := ex_ppw2\<lparr>index_k3 := 5\<rparr>\<rparr>, [''a''])"
  using debug_selector [of "''k''" ex_scope "[''a'']" ex_scope]
    debug_selector [of "''k''" "ex_scope\<lparr>ppw2 := ex_ppw2\<lparr>index_k3 := 5\<rparr>\<rparr>" "[''a'']" ex_scope]
  by (simp add: prod_eq_iff ex_eval)

subsection \<open>Expansion convention\<close>

text \<open>
  Claim C8. The coefficient of the quadratic sources is the constant 2, whatever the
  scope and the source term; it is never 1.
\<close>

theorem quad_coefficient_is_two: "quad_coefficient = 2 \<and> quad_coefficient \<noteq> 1"
  by (simp add: quad_coefficient_def)

subsection \<open>Coupling coefficients\<close>

text \<open>
  For a second argument that is a variable, a constant or a parenthesised expression,
  the coupling accessors index the second dimension of their table at \<open>m - m1 + 1\<close>
  without any test. When the rows of the tables have three entries and \<open>m - m1\<close> is
  not one of \<open>-1\<close>, \<open>0\<close>, \<open>1\<close>, that index is outside every row and the access is
  out of bounds; when \<open>|m - m1| \<le> 1\<close> the accessor is the entry \<open>m - m1 + 1\<close> of the
  row selected by \<open>lm(l,m)\<close>.
\<close>

lemma coupling_atomic_argument:
  assumes "\<forall>row \<in> set (c_minus_tab (ppt2 s)). length row = 3"
    and "\<forall>row \<in> set (c_plus_tab (ppt2 s)). length row = 3"
    and "\<forall>row \<in> set (d_minus_tab (ppt2 s)). length row = 3"
    and "\<forall>row \<in> set (d_plus_tab (ppt2 s)). length row = 3"
    and "\<forall>row \<in> set (d_zero_tab (ppt2 s)). length row = 3"
  shows
   "(m - m1 < - 1 \<or> 1 < m - m1 \<longrightarrow>
       c_minus s l (Atom m1) m = None \<and> c_plus s l (Atom m1) m = None \<and>
       d_minus s l (Atom m1) m = None \<and> d_plus s l (Atom m1) m = None \<and>
       d_zero s l (Atom m1) m = None) \<and>
    (- 1 \<le> m - m1 \<and> m - m1 \<le> 1 \<longrightarrow>
       c_minus s l (Atom m1) m =
         lm s l m \<bind> (\<lambda>i. rd (c_minus_tab (ppt2 s)) i \<bind> (\<lambda>row. Some (row ! nat (m - m1 + 1)))) \<and>
       c_plus s l (Atom m1) m =
         lm s l m \<bind> (\<lambda>i. rd (c_plus_tab (ppt2 s)) i \<bind> (\<lambda>row. Some (row ! nat (m - m1 + 1)))) \<and>
       d_minus s l (Atom m1) m =
         lm s l m \<bind> (\<lambda>i. rd (d_minus_tab (ppt2 s)) i \<bind> (\<lambda>row. Some (row ! nat (m - m1 + 1)))) \<and>
       d_plus s l (Atom m1) m =
         lm s l m \<bind> (\<lambda>i. rd (d_plus_tab (ppt2 s)) i \<bind> (\<lambda>row. Some (row ! nat (m - m1 + 1)))) \<and>
       d_zero s l (Atom m1) m =
         lm s l m \<bind> (\<lambda>i. rd (d_zero_tab (ppt2 s)) i \<bind> (\<lambda>row. Some (row ! nat (m - m1 + 1)))))"
proof -
  have out: "coupling tab s l (Atom m1) m = None"
    if "\<forall>row \<in> set tab. length row = 3" "m - m1 < - 1 \<or> 1 < m - m1" for tab
    using that
    by (auto simp: coupling_def rd_def c_int_def split: bind_splits if_splits)
  have inside: "coupling tab s l (Atom m1) m =
      lm s l m \<bind> (\<lambda>i. rd tab i \<bind> (\<lambda>row. Some (row ! nat (m - m1 + 1))))"
    if "\<forall>row \<in> set tab. length row = 3" "- 1 \<le> m - m1" "m - m1 \<le> 1" for tab
    using that
    by (auto simp: coupling_def rd_def c_int_def INT_MIN_def INT_MAX_def split: bind_splits)
  show ?thesis
    unfolding c_minus_def c_plus_def d_minus_def d_plus_def d_zero_def
    using assms out inside by (intro conjI impI) auto
qed

text \<open>
  Claim C9. The claim holds of the macros as they are meant, and of the calls above. It
  fails of the code for a second argument that is a sum or a difference, because the
  body uses the parameter \<^verbatim>\<open>m1\<close> without parentheses, where the other macros of the
  header write \<^verbatim>\<open>(l)\<close> and \<^verbatim>\<open>(m)\<close>. In the concrete scope, with \<open>l = 2\<close> and
  \<open>m = 1\<close>: the call \<^verbatim>\<open>c_plus(l,m-1,m)\<close> has \<open>m1 = 0\<close> and should read column
  \<open>m - m1 + 1 = 2\<close>, but reads column \<^verbatim>\<open>m-m-1+1\<close>, that is 0; and the call
  \<^verbatim>\<open>c_minus(l,x+2,m)\<close> with \<open>x = 3\<close> has \<open>m1 = 5\<close>, so that \<open>m - m1\<close> is not one of
  \<open>-1\<close>, \<open>0\<close>, \<open>1\<close>, but reads column \<^verbatim>\<open>m-x+2+1\<close>, that is 1, inside the row.
\<close>

theorem coupling_unparenthesised_argument:
  "eval_arg (Minus (Atom 1) 1) = Some 0 \<and>
   c_plus ex_scope 2 (Minus (Atom 1) 1) 1 = Some (Finite 7) \<and>
   c_plus ex_scope 2 (Atom 0) 1 = Some (Finite (- 7)) \<and>
   eval_arg (Plus (Atom 3) 2) = Some 5 \<and>
   c_minus ex_scope 2 (Plus (Atom 3) 2) 1 = Some (Finite (15 / 2)) \<and>
   c_minus ex_scope 2 (Atom 5) 1 = None"
  by (simp add: c_plus_def c_minus_def coupling_def ex_eval)

subsection \<open>Rotated first-order moments\<close>

text \<open>A product of doubles with a zero factor.\<close>

lemma c_times_zero:
  "c_times s (Some (Finite 0)) t =
     (case t of None \<Rightarrow> None | Some (Finite x) \<Rightarrow> Some (Finite 0) | Some _ \<Rightarrow> Some NaN)"
  "c_times s r (Some (Finite 0)) =
     (case r of None \<Rightarrow> None | Some (Finite x) \<Rightarrow> Some (Finite 0) | Some _ \<Rightarrow> Some NaN)"
  by (simp_all add: c_times_def split: option.split double.split)

text \<open>
  Claim C10, as amended. For each leg and all ints \<open>l\<close>, \<open>m\<close>: when \<open>l < 0\<close>, the
  rotated accessors of I, E and N are 0. When \<open>l \<ge> 0\<close>, \<open>|m| > l\<close> and \<open>m\<close> is not
  \<open>INT_MIN\<close>, the rotation factor is 0, and the accessor is 0 provided that its other
  factor, the first-order moment of degree \<open>l\<close>, is read inside the bounds of the source
  vector and is finite; it is not a number when that moment is infinite or not a number,
  and has no value when the moment is read out of bounds, since the macro evaluates
  that factor in any case. When polarisation is switched off, the first-order E moment
  is 0, and the rotated E accessor is 0 when \<open>l < 0\<close>, when \<open>|m| > l\<close> and \<open>m\<close> is not
  \<open>INT_MIN\<close>, and for every valid \<open>(l,m)\<close> whose rotation coefficient is read inside
  the bounds of the rotation tables and is finite.
\<close>

theorem rotated_first_order:
  "(l < 0 \<longrightarrow>
      I_1 s l m = Some (Finite 0) \<and> I_2 s l m = Some (Finite 0) \<and>
      E_1 s l m = Some (Finite 0) \<and> E_2 s l m = Some (Finite 0) \<and>
      N_1 s l m = Some (Finite 0) \<and> N_2 s l m = Some (Finite 0)) \<and>
   (0 \<le> l \<and> \<bar>m\<bar> > l \<and> m \<noteq> INT_MIN \<longrightarrow>
      I_1 s l m = (case I_1_tilde s l of None \<Rightarrow> None
        | Some (Finite x) \<Rightarrow> Some (Finite 0) | Some _ \<Rightarrow> Some NaN) \<and>
      I_2 s l m = (case I_2_tilde s l of None \<Rightarrow> None
        | Some (Finite x) \<Rightarrow> Some (Finite 0) | Some _ \<Rightarrow> Some NaN) \<and>
      E_1 s l m = (case E_1_tilde s l of None \<Rightarrow> None
        | Some (Finite x) \<Rightarrow> Some (Finite 0) | Some _ \<Rightarrow> Some NaN) \<and>
      E_2 s l m = (case E_2_tilde s l of None \<Rightarrow> None
        | Some (Finite x) \<Rightarrow> Some (Finite 0) | Some _ \<Rightarrow> Some NaN) \<and>
      N_1 s l m = (case N_1_tilde s l of None \<Rightarrow> None
        | Some (Finite x) \<Rightarrow> Some (Finite 0) | Some _ \<Rightarrow> Some NaN) \<and>
      N_2 s l m = (case N_2_tilde s l of None \<Rightarrow> None
        | Some (Finite x) \<Rightarrow> Some (Finite 0) | Some _ \<Rightarrow> Some NaN)) \<and>
   (\<not> has_polarization2 (ppt2 s) \<longrightarrow>
      E_1_tilde s l = Some (Finite 0) \<and> E_2_tilde s l = Some (Finite 0) \<and>
      E_1 s l m = (case rot_1 s l m of None \<Rightarrow> None
        | Some (Finite x) \<Rightarrow> Some (Finite 0) | Some _ \<Rightarrow> Some NaN) \<and>
      E_2 s l m = (case rot_2 s l m of None \<Rightarrow> None
        | Some (Finite x) \<Rightarrow> Some (Finite 0) | Some _ \<Rightarrow> Some NaN)) \<and>
   (\<not> has_polarization2 (ppt2 s) \<and> (l < 0 \<or> \<bar>m\<bar> > l \<and> m \<noteq> INT_MIN) \<longrightarrow>
      E_1 s l m = Some (Finite 0) \<and> E_2 s l m = Some (Finite 0))"
proof -
  have r1: "l < 0 \<or> \<bar>m\<bar> > l \<and> m \<noteq> INT_MIN \<Longrightarrow> rot_1 s l m = Some (Finite 0)"
    and r2: "l < 0 \<or> \<bar>m\<bar> > l \<and> m \<noteq> INT_MIN \<Longrightarrow> rot_2 s l m = Some (Finite 0)"
    by (auto simp: rot_1_def rot_2_def c_abs_def)
  have t: "l < 0 \<Longrightarrow> I_1_tilde s l = Some (Finite 0) \<and> I_2_tilde s l = Some (Finite 0) \<and>
      E_1_tilde s l = Some (Finite 0) \<and> E_2_tilde s l = Some (Finite 0) \<and>
      N_1_tilde s l = Some (Finite 0) \<and> N_2_tilde s l = Some (Finite 0)"
    by (simp add: I_1_tilde_def I_2_tilde_def E_1_tilde_def E_2_tilde_def
        N_1_tilde_def N_2_tilde_def)
  have e: "\<not> has_polarization2 (ppt2 s) \<Longrightarrow>
      E_1_tilde s l = Some (Finite 0) \<and> E_2_tilde s l = Some (Finite 0)"
    by (simp add: E_1_tilde_def E_2_tilde_def)
  have A: "l < 0 \<longrightarrow>
      I_1 s l m = Some (Finite 0) \<and> I_2 s l m = Some (Finite 0) \<and>
      E_1 s l m = Some (Finite 0) \<and> E_2 s l m = Some (Finite 0) \<and>
      N_1 s l m = Some (Finite 0) \<and> N_2 s l m = Some (Finite 0)"
    using t r1 r2 by (simp add: I_1_def I_2_def E_1_def E_2_def N_1_def N_2_def c_times_zero)
  have B: "0 \<le> l \<and> \<bar>m\<bar> > l \<and> m \<noteq> INT_MIN \<longrightarrow>
      I_1 s l m = (case I_1_tilde s l of None \<Rightarrow> None
        | Some (Finite x) \<Rightarrow> Some (Finite 0) | Some _ \<Rightarrow> Some NaN) \<and>
      I_2 s l m = (case I_2_tilde s l of None \<Rightarrow> None
        | Some (Finite x) \<Rightarrow> Some (Finite 0) | Some _ \<Rightarrow> Some NaN) \<and>
      E_1 s l m = (case E_1_tilde s l of None \<Rightarrow> None
        | Some (Finite x) \<Rightarrow> Some (Finite 0) | Some _ \<Rightarrow> Some NaN) \<and>
      E_2 s l m = (case E_2_tilde s l of None \<Rightarrow> None
        | Some (Finite x) \<Rightarrow> Some (Finite 0) | Some _ \<Rightarrow> Some NaN) \<and>
      N_1 s l m = (case N_1_tilde s l of None \<Rightarrow> None
        | Some (Finite x) \<Rightarrow> Some (Finite 0) | Some _ \<Rightarrow> Some NaN) \<and>
      N_2 s l m = (case N_2_tilde s l of None \<Rightarrow> None
        | Some (Finite x) \<Rightarrow> Some (Finite 0) | Some _ \<Rightarrow> Some NaN)"
    using r1 r2 by (simp add: I_1_def I_2_def E_1_def E_2_def N_1_def N_2_def c_times_zero)
  have C: "\<not> has_polarization2 (ppt2 s) \<longrightarrow>
      E_1_tilde s l = Some (Finite 0) \<and> E_2_tilde s l = Some (Finite 0) \<and>
      E_1 s l m = (case rot_1 s l m of None \<Rightarrow> None
        | Some (Finite x) \<Rightarrow> Some (Finite 0) | Some _ \<Rightarrow> Some NaN) \<and>
      E_2 s l m = (case rot_2 s l m of None \<Rightarrow> None
        | Some (Finite x) \<Rightarrow> Some (Finite 0) | Some _ \<Rightarrow> Some NaN)"
    using e by (simp add: E_1_def E_2_def c_times_zero)
  have D: "\<not> has_polarization2 (ppt2 s) \<and> (l < 0 \<or> \<bar>m\<bar> > l \<and> m \<noteq> INT_MIN) \<longrightarrow>
      E_1 s l m = Some (Finite 0) \<and> E_2 s l m = Some (Finite 0)"
    using e r1 r2 by (auto simp: E_1_def E_2_def c_times_zero)
  from A B C D show ?thesis by blast
qed

theorem rotated_first_order_witness:
  "I_1 ex_scope (- 1) 0 = Some (Finite 0) \<and> N_2 ex_scope (- 1) 0 = Some (Finite 0) \<and>
   I_1 ex_scope 1 2 = Some (Finite 0) \<and> I_2 ex_scope 1 2 = Some (Finite 0) \<and>
   N_1 ex_scope 1 2 = Some (Finite 0) \<and> N_2 ex_scope 1 2 = Some (Finite 0) \<and>
   E_1 ex_scope_pol 1 2 = Some (Finite 0) \<and> E_2 ex_scope_pol 1 2 = Some (Finite 0) \<and>
   E_1 ex_scope 2 1 = Some (Finite 0) \<and> E_2 ex_scope 2 (- 1) = Some (Finite 0) \<and>
   E_1 ex_scope 7 8 = Some (Finite 0) \<and> I_1 ex_scope_inf 1 2 = Some NaN"
  using rotated_first_order [where s = ex_scope and l = "- 1" and m = 0]
    rotated_first_order [where s = ex_scope and l = 1 and m = 2]
    rotated_first_order [where s = ex_scope_pol and l = 1 and m = 2]
    rotated_first_order [where s = ex_scope and l = 2 and m = 1]
    rotated_first_order [where s = ex_scope and l = 2 and m = "- 1"]
    rotated_first_order [where s = ex_scope and l = 7 and m = 8]
    rotated_first_order [where s = ex_scope_inf and l = 1 and m = 2]
  by (simp add: I_1_tilde_def I_2_tilde_def E_1_tilde_def E_2_tilde_def
        N_1_tilde_def N_2_tilde_def rot_1_def rot_2_def ex_eval)

text \<open>
  The claim as stated fails where the other factor is not finite, or is not read: at
  \<open>(1,2)\<close> the rotation factor is 0, but in the scope with an infinite dipole the
  product is not a number; at \<open>(5,0)\<close>, with polarisation off, the rotation tables
  have no row 5; and at \<open>(0, INT_MIN)\<close> the rotation factor has no value.
\<close>

theorem rotated_first_order_counterexample:
  "\<bar>2::int\<bar> > 1 \<and> I_1 ex_scope_inf 1 2 \<noteq> Some (Finite 0) \<and>
   \<not> has_polarization2 (ppt2 ex_scope) \<and> E_1 ex_scope 5 0 \<noteq> Some (Finite 0) \<and>
   N_2 ex_scope 0 (- 2147483648) \<noteq> Some (Finite 0)"
  by (simp add: I_1_def N_2_def E_1_def c_times_def I_1_tilde_def N_2_tilde_def E_1_tilde_def
      rot_1_def rot_2_def ex_eval)

section \<open>Properties of the configuration files\<close>

lemma find_name_Some:
  "find_name xs n = Some i \<Longrightarrow> i < length xs \<and> xs ! i = n"
  by (induction xs arbitrary: i) (auto split: if_splits)

lemma find_name_None: "find_name xs n = None \<longleftrightarrow> n \<notin> set xs"
  by (induction xs) auto

lemma find_name_append:
  "find_name xs n = Some i \<Longrightarrow> find_name (xs @ ys) n = Some i"
  by (induction xs arbitrary: i) (auto split: if_splits)

lemma read_file_Inr:
  assumes "parser_read_file f es = Inr b"
  shows "list_all (\<lambda>(n, v). fits n \<and> fits v) es" "name b = map fst es"
    "value_fc b = map snd es" "read b = replicate (length es) False" "wf_fc b"
  using assms by (auto simp: parser_read_file_def wf_fc_def split: if_splits)

lemma overlay_step_fits: "fits v \<Longrightarrow> overlay_step pfc n v = Inr (step_result pfc n v)"
  by (simp add: overlay_step_def parser_overwrite_entry_def step_result_def
      split: option.splits)

lemma overlay_fits:
  "list_all (\<lambda>(n, v). fits n \<and> fits v) es \<Longrightarrow> overlay pfc es = Inr (overlay_result pfc es)"
proof (induction es arbitrary: pfc)
  case Nil
  then show ?case by simp
next
  case (Cons e es)
  obtain n v where e: "e = (n, v)" by (cases e)
  have v: "fits v" and es: "list_all (\<lambda>(n, v). fits n \<and> fits v) es"
    using Cons.prems e by simp_all
  show ?case
    unfolding e by (simp add: overlay_step_fits [OF v] Cons.IH [OF es])
qed

lemma overlay_result_Cons:
  "overlay_result pfc ((n, v) # es) = overlay_result (step_result pfc n v) es"
  by simp

lemma step_result_wf: "wf_fc pfc \<Longrightarrow> wf_fc (step_result pfc n v)"
  by (auto simp: step_result_def set_entry_def append_entry_def wf_fc_def
      split: option.splits)

lemma step_result_read:
  "\<forall>r \<in> set (read pfc). \<not> r \<Longrightarrow> \<forall>r \<in> set (read (step_result pfc n v)). \<not> r"
  by (auto simp: step_result_def set_entry_def append_entry_def split: option.splits)

lemma step_result_find:
  "find_name (name pfc) k = Some i \<Longrightarrow> find_name (name (step_result pfc n v)) k = Some i"
  by (auto simp: step_result_def set_entry_def append_entry_def find_name_append
      split: option.splits)

lemma step_result_other:
  assumes "wf_fc pfc" "find_name (name pfc) k = Some i" "n \<noteq> k"
  shows "value_fc (step_result pfc n v) ! i = value_fc pfc ! i \<and>
    overwritten (step_result pfc n v) ! i = overwritten pfc ! i"
proof (cases "find_name (name pfc) n")
  case None
  have "i < length (name pfc)" using find_name_Some [OF assms(2)] by simp
  then show ?thesis
    using None assms(1)
    by (simp add: step_result_def append_entry_def wf_fc_def nth_append)
next
  case (Some j)
  have "name pfc ! j = n" "name pfc ! i = k"
    using find_name_Some [OF Some] find_name_Some [OF assms(2)] by simp_all
  then have "j \<noteq> i" using assms(3) by auto
  then show ?thesis
    using Some by (simp add: step_result_def set_entry_def)
qed

lemma step_result_same:
  assumes "wf_fc pfc" "find_name (name pfc) n = Some i"
  shows "value_fc (step_result pfc n v) ! i = v \<and> overwritten (step_result pfc n v) ! i = True"
proof -
  have "i < length (name pfc)" using find_name_Some [OF assms(2)] by simp
  then show ?thesis
    using assms by (simp add: step_result_def set_entry_def wf_fc_def)
qed

lemma overlay_result_wf: "wf_fc pfc \<Longrightarrow> wf_fc (overlay_result pfc es)"
proof (induction es arbitrary: pfc)
  case Nil
  then show ?case by simp
next
  case (Cons e es)
  obtain n v where e: "e = (n, v)" by (cases e)
  show ?case unfolding e overlay_result_Cons
    by (rule Cons.IH) (rule step_result_wf [OF Cons.prems])
qed

lemma overlay_result_read:
  "\<forall>r \<in> set (read pfc). \<not> r \<Longrightarrow> \<forall>r \<in> set (read (overlay_result pfc es)). \<not> r"
proof (induction es arbitrary: pfc)
  case Nil
  then show ?case by simp
next
  case (Cons e es)
  obtain n v where e: "e = (n, v)" by (cases e)
  show ?case unfolding e overlay_result_Cons
    by (rule Cons.IH) (rule step_result_read [OF Cons.prems])
qed

lemma overlay_result_find:
  "find_name (name pfc) k = Some i \<Longrightarrow> find_name (name (overlay_result pfc es)) k = Some i"
proof (induction es arbitrary: pfc)
  case Nil
  then show ?case by simp
next
  case (Cons e es)
  obtain n v where e: "e = (n, v)" by (cases e)
  show ?case unfolding e overlay_result_Cons
    by (rule Cons.IH) (rule step_result_find [OF Cons.prems])
qed

lemma overlay_result_other:
  "wf_fc pfc \<Longrightarrow> find_name (name pfc) k = Some i \<Longrightarrow> k \<notin> fst ` set es \<Longrightarrow>
   value_fc (overlay_result pfc es) ! i = value_fc pfc ! i \<and>
   overwritten (overlay_result pfc es) ! i = overwritten pfc ! i"
proof (induction es arbitrary: pfc)
  case Nil
  then show ?case by simp
next
  case (Cons e es)
  obtain n v where e: "e = (n, v)" by (cases e)
  let ?p = "step_result pfc n v"
  have nk: "n \<noteq> k" "k \<notin> fst ` set es" using Cons.prems(3) e by auto
  have "value_fc (overlay_result ?p es) ! i = value_fc ?p ! i \<and>
      overwritten (overlay_result ?p es) ! i = overwritten ?p ! i"
    by (rule Cons.IH [OF step_result_wf [OF Cons.prems(1)]
          step_result_find [OF Cons.prems(2)] nk(2)])
  then show ?case
    unfolding e overlay_result_Cons
    using step_result_other [OF Cons.prems(1,2) nk(1)] by simp
qed

text \<open>
  An entry of the base that the override sets, once or several times, has the value
  that the override sets last.
\<close>

lemma overlay_result_same:
  "wf_fc pfc \<Longrightarrow> find_name (name pfc) k = Some i \<Longrightarrow> map_of (rev es) k = Some v \<Longrightarrow>
   value_fc (overlay_result pfc es) ! i = v \<and> overwritten (overlay_result pfc es) ! i = True"
proof (induction es arbitrary: pfc)
  case Nil
  then show ?case by simp
next
  case (Cons e es)
  obtain n w where e: "e = (n, w)" by (cases e)
  let ?p = "step_result pfc n w"
  have wf: "wf_fc ?p" by (rule step_result_wf [OF Cons.prems(1)])
  have fi: "find_name (name ?p) k = Some i" by (rule step_result_find [OF Cons.prems(2)])
  show ?case
  proof (cases "map_of (rev es) k")
    case (Some v')
    then have "map_of (rev es) k = Some v"
      using Cons.prems(3) e by (simp add: map_add_def)
    then show ?thesis unfolding e overlay_result_Cons by (rule Cons.IH [OF wf fi])
  next
    case None
    then have kv: "n = k" "w = v"
      using Cons.prems(3) e by (auto simp: map_add_def split: if_splits)
    have "k \<notin> fst ` set es" using None unfolding map_of_eq_None_iff by simp
    then have "value_fc (overlay_result ?p es) ! i = value_fc ?p ! i \<and>
        overwritten (overlay_result ?p es) ! i = overwritten ?p ! i"
      by (rule overlay_result_other [OF wf fi])
    then show ?thesis
      unfolding e overlay_result_Cons
      using step_result_same [OF Cons.prems(1), of k i v] Cons.prems(2) kv by simp
  qed
qed

text \<open>
  A lookup that returns, of whatever type, leaves the file content that \<open>mark_read\<close>
  gives: the entry of the name flagged as read when the name is found, the content as
  it was otherwise.
\<close>

lemma lookup_marks_read:
  "parser_read_as convert pfc n = Inr (p, x) \<Longrightarrow> p = mark_read pfc n"
  by (auto simp: parser_read_as_def mark_read_def split: option.splits)

lemma lookup_found:
  "find_name (name pfc) n = Some i \<Longrightarrow> convert (value_fc pfc ! i) = Some x \<Longrightarrow>
   parser_read_as convert pfc n = Inr (pfc\<lparr>read := (read pfc)[i := True]\<rparr>, Some x)"
  by (simp add: parser_read_as_def)

lemma convert_all_Some: "convert_all Some xs = Some xs"
  by (induction xs) simp_all

lemma mark_read_wf: "wf_fc pfc \<Longrightarrow> wf_fc (mark_read pfc n)"
  by (auto simp: mark_read_def wf_fc_def split: option.splits)

lemma mark_read_name: "name (mark_read pfc n) = name pfc"
  by (auto simp: mark_read_def split: option.splits)

lemma mark_read_other:
  assumes "find_name (name pfc) k = Some i" "n \<noteq> k"
  shows "read (mark_read pfc n) ! i = read pfc ! i"
proof (cases "find_name (name pfc) n")
  case None
  then show ?thesis by (simp add: mark_read_def)
next
  case (Some j)
  have "name pfc ! j = n" "name pfc ! i = k"
    using find_name_Some [OF Some] find_name_Some [OF assms(1)] by simp_all
  then have "j \<noteq> i" using assms(2) by auto
  then show ?thesis using Some by (simp add: mark_read_def)
qed

lemma lookups_other:
  "wf_fc pfc \<Longrightarrow> find_name (name pfc) k = Some i \<Longrightarrow> k \<notin> set ns \<Longrightarrow>
   wf_fc (lookups pfc ns) \<and> name (lookups pfc ns) = name pfc \<and>
   read (lookups pfc ns) ! i = read pfc ! i"
proof (induction ns arbitrary: pfc)
  case Nil
  then show ?case by simp
next
  case (Cons n ns)
  let ?p = "mark_read pfc n"
  have nk: "n \<noteq> k" "k \<notin> set ns" using Cons.prems(3) by auto
  have "wf_fc (lookups ?p ns) \<and> name (lookups ?p ns) = name ?p \<and>
      read (lookups ?p ns) ! i = read ?p ! i"
    using Cons.prems(2) nk(2)
    by (intro Cons.IH mark_read_wf [OF Cons.prems(1)]) (simp_all add: mark_read_name)
  then show ?case
    using mark_read_other [OF Cons.prems(2) nk(1)] by (simp add: mark_read_name)
qed

lemma unread_entriesI:
  assumes "wf_fc pfc" "find_name (name pfc) k = Some i" "\<not> read pfc ! i"
  shows "k \<in> set (unread_entries pfc)"
proof -
  have i: "i < length (name pfc)" "name pfc ! i = k"
    using find_name_Some [OF assms(2)] by simp_all
  then have "(k, read pfc ! i) \<in> set (zip (name pfc) (read pfc))"
    using assms(1) by (auto simp: in_set_zip wf_fc_def intro!: exI [of _ i])
  then show ?thesis
    using assms(3) by (force simp: unread_entries_def)
qed

lemma overwritten_entriesI:
  assumes "wf_fc pfc" "find_name (name pfc) k = Some i" "overwritten pfc ! i"
  shows "k \<in> set (overwritten_entries pfc)"
proof -
  have i: "i < length (name pfc)" "name pfc ! i = k"
    using find_name_Some [OF assms(2)] by simp_all
  then have "(k, overwritten pfc ! i) \<in> set (zip (name pfc) (overwritten pfc))"
    using assms(1) by (auto simp: in_set_zip wf_fc_def intro!: exI [of _ i])
  then show ?thesis
    using assms(3) by (force simp: overwritten_entries_def)
qed

lemma overlay_returns:
  assumes "parser_read_file f base = Inr b" "parser_read_file g ovr = Inr ov"
  shows "parser_overlay b ov = Inr (overlay_result b ovr)"
  using overlay_fits [OF read_file_Inr(1) [OF assms(2)], of b]
  by (simp add: parser_overlay_def read_file_Inr(2,3) [OF assms(2)] zip_map_fst_snd)

lemma overlay_overridden:
  assumes b: "parser_read_file f base = Inr b"
    and n: "n \<in> fst ` set base" "map_of (rev ovr) n = Some v"
  shows "\<exists>i. find_name (name (overlay_result b ovr)) n = Some i \<and>
      value_fc (overlay_result b ovr) ! i = v \<and> overwritten (overlay_result b ovr) ! i \<and>
      n \<in> set (overwritten_entries (overlay_result b ovr))"
proof -
  let ?p = "overlay_result b ovr"
  have wfb: "wf_fc b" by (rule read_file_Inr(5) [OF b])
  have wf: "wf_fc ?p" by (rule overlay_result_wf [OF wfb])
  obtain i where i: "find_name (name b) n = Some i"
    using n(1) find_name_None [of "name b" n] read_file_Inr(2) [OF b]
    by (cases "find_name (name b) n") auto
  have fi: "find_name (name ?p) n = Some i" by (rule overlay_result_find [OF i])
  have vi: "value_fc ?p ! i = v \<and> overwritten ?p ! i = True"
    by (rule overlay_result_same [OF wfb i n(2)])
  show ?thesis
    using fi vi overwritten_entriesI [OF wf fi] by simp
qed

lemma overlay_base_only:
  assumes b: "parser_read_file f base = Inr b"
    and n: "n' \<in> fst ` set base" "n' \<notin> set ns"
  shows "\<exists>j. find_name (name (lookups (overlay_result b ovr) ns)) n' = Some j \<and>
      \<not> read (lookups (overlay_result b ovr) ns) ! j \<and>
      n' \<in> set (unread_entries (lookups (overlay_result b ovr) ns))"
proof -
  let ?p = "overlay_result b ovr"
  have wfb: "wf_fc b" by (rule read_file_Inr(5) [OF b])
  have wf: "wf_fc ?p" by (rule overlay_result_wf [OF wfb])
  have unread_b: "\<forall>r \<in> set (read b). \<not> r" by (simp add: read_file_Inr(4) [OF b])
  obtain j where j: "find_name (name b) n' = Some j"
    using n(1) find_name_None [of "name b" n'] read_file_Inr(2) [OF b]
    by (cases "find_name (name b) n'") auto
  have fj: "find_name (name ?p) n' = Some j" by (rule overlay_result_find [OF j])
  have "j < length (name ?p)" using find_name_Some [OF fj] by simp
  then have "read ?p ! j \<in> set (read ?p)" using wf by (simp add: wf_fc_def)
  then have rj: "\<not> read ?p ! j"
    using overlay_result_read [OF unread_b, of ovr] by blast
  have lk: "wf_fc (lookups ?p ns) \<and> name (lookups ?p ns) = name ?p \<and>
      read (lookups ?p ns) ! j = read ?p ! j"
    by (rule lookups_other [OF wf fj n(2)])
  show ?thesis
    using lk fj rj unread_entriesI [of "lookups ?p ns" n' j] by simp
qed

text \<open>
  Claim C7. Let a base file and an override file be read, and the base be overlaid with
  the override. The overlay returns a file content, and in it: (1) for every name \<open>n\<close>
  that the base has and that the override sets, with \<open>v\<close> the value that the override
  sets last, the entry of \<open>n\<close> is flagged and reported as overwritten, and each of the
  six typed lookups of \<open>n\<close> reports found, flags the entry as read and returns \<open>v\<close>
  converted to its type, whenever \<open>v\<close> can be converted; the string lookup returns \<open>v\<close>
  itself; (2) for every name \<open>n'\<close> that the base has and the override does not set,
  after lookups of any names other than \<open>n'\<close> the read flag of \<open>n'\<close> is unset and \<open>n'\<close>
  is reported among the entries never consulted. Neither part supposes anything of the
  other: (1) holds when the override sets every name of the base, (2) when it sets
  none.
\<close>

theorem configuration_overlay:
  assumes base: "parser_read_file f base = Inr b"
    and ovr: "parser_read_file g ovr = Inr ov"
  shows
   "\<exists>pfc. parser_overlay b ov = Inr pfc \<and>
      (\<forall>n v. n \<in> fst ` set base \<and> map_of (rev ovr) n = Some v \<longrightarrow>
         (\<exists>i. find_name (name pfc) n = Some i \<and> overwritten pfc ! i \<and>
            n \<in> set (overwritten_entries pfc) \<and>
            parser_read_string pfc n = Inr (pfc\<lparr>read := (read pfc)[i := True]\<rparr>, Some v) \<and>
            parser_read_list_of_strings pfc n =
              Inr (pfc\<lparr>read := (read pfc)[i := True]\<rparr>, Some (split_commas v)) \<and>
            (\<forall>k. parse_int v = Some k \<longrightarrow>
               parser_read_int pfc n = Inr (pfc\<lparr>read := (read pfc)[i := True]\<rparr>, Some k)) \<and>
            (\<forall>ks. parse_list parse_int v = Some ks \<longrightarrow>
               parser_read_list_of_integers pfc n =
                 Inr (pfc\<lparr>read := (read pfc)[i := True]\<rparr>, Some ks)) \<and>
            (\<forall>x. strtod v = Some x \<longrightarrow>
               parser_read_double strtod pfc n =
                 Inr (pfc\<lparr>read := (read pfc)[i := True]\<rparr>, Some x)) \<and>
            (\<forall>xs. parse_list strtod v = Some xs \<longrightarrow>
               parser_read_list_of_doubles strtod pfc n =
                 Inr (pfc\<lparr>read := (read pfc)[i := True]\<rparr>, Some xs)))) \<and>
      (\<forall>n' ns. n' \<in> fst ` set base \<and> n' \<notin> fst ` set ovr \<and> n' \<notin> set ns \<longrightarrow>
         (\<exists>j. find_name (name (lookups pfc ns)) n' = Some j \<and>
            \<not> read (lookups pfc ns) ! j \<and>
            n' \<in> set (unread_entries (lookups pfc ns))))"
proof -
  let ?p = "overlay_result b ovr"
  have r: "parser_overlay b ov = Inr ?p"
    by (rule overlay_returns [OF base ovr])
  have A: "\<forall>n v. n \<in> fst ` set base \<and> map_of (rev ovr) n = Some v \<longrightarrow>
         (\<exists>i. find_name (name ?p) n = Some i \<and> overwritten ?p ! i \<and>
            n \<in> set (overwritten_entries ?p) \<and>
            parser_read_string ?p n = Inr (?p\<lparr>read := (read ?p)[i := True]\<rparr>, Some v) \<and>
            parser_read_list_of_strings ?p n =
              Inr (?p\<lparr>read := (read ?p)[i := True]\<rparr>, Some (split_commas v)) \<and>
            (\<forall>k. parse_int v = Some k \<longrightarrow>
               parser_read_int ?p n = Inr (?p\<lparr>read := (read ?p)[i := True]\<rparr>, Some k)) \<and>
            (\<forall>ks. parse_list parse_int v = Some ks \<longrightarrow>
               parser_read_list_of_integers ?p n =
                 Inr (?p\<lparr>read := (read ?p)[i := True]\<rparr>, Some ks)) \<and>
            (\<forall>x. strtod v = Some x \<longrightarrow>
               parser_read_double strtod ?p n =
                 Inr (?p\<lparr>read := (read ?p)[i := True]\<rparr>, Some x)) \<and>
            (\<forall>xs. parse_list strtod v = Some xs \<longrightarrow>
               parser_read_list_of_doubles strtod ?p n =
                 Inr (?p\<lparr>read := (read ?p)[i := True]\<rparr>, Some xs)))"
  proof (intro allI impI)
    fix n v
    assume "n \<in> fst ` set base \<and> map_of (rev ovr) n = Some v"
    then obtain i where i: "find_name (name ?p) n = Some i"
        "value_fc ?p ! i = v" "overwritten ?p ! i" "n \<in> set (overwritten_entries ?p)"
      using overlay_overridden [OF base, of n ovr v] by blast
    have found: "\<And>convert x. convert v = Some x \<Longrightarrow>
        parser_read_as convert ?p n = Inr (?p\<lparr>read := (read ?p)[i := True]\<rparr>, Some x)"
      using lookup_found [OF i(1)] i(2) by simp
    have "find_name (name ?p) n = Some i \<and> overwritten ?p ! i \<and>
            n \<in> set (overwritten_entries ?p) \<and>
            parser_read_string ?p n = Inr (?p\<lparr>read := (read ?p)[i := True]\<rparr>, Some v) \<and>
            parser_read_list_of_strings ?p n =
              Inr (?p\<lparr>read := (read ?p)[i := True]\<rparr>, Some (split_commas v)) \<and>
            (\<forall>k. parse_int v = Some k \<longrightarrow>
               parser_read_int ?p n = Inr (?p\<lparr>read := (read ?p)[i := True]\<rparr>, Some k)) \<and>
            (\<forall>ks. parse_list parse_int v = Some ks \<longrightarrow>
               parser_read_list_of_integers ?p n =
                 Inr (?p\<lparr>read := (read ?p)[i := True]\<rparr>, Some ks)) \<and>
            (\<forall>x. strtod v = Some x \<longrightarrow>
               parser_read_double strtod ?p n =
                 Inr (?p\<lparr>read := (read ?p)[i := True]\<rparr>, Some x)) \<and>
            (\<forall>xs. parse_list strtod v = Some xs \<longrightarrow>
               parser_read_list_of_doubles strtod ?p n =
                 Inr (?p\<lparr>read := (read ?p)[i := True]\<rparr>, Some xs))"
      unfolding parser_read_string_def parser_read_list_of_strings_def parser_read_int_def
        parser_read_list_of_integers_def parser_read_double_def
        parser_read_list_of_doubles_def
      using i(1,3,4) found [of Some v] found [of "parse_list Some" "split_commas v"]
        found [of parse_int] found [of "parse_list parse_int"] found [of strtod]
        found [of "parse_list strtod"]
      by (simp add: parse_list_def convert_all_Some)
    then show "\<exists>i. find_name (name ?p) n = Some i \<and> overwritten ?p ! i \<and>
            n \<in> set (overwritten_entries ?p) \<and>
            parser_read_string ?p n = Inr (?p\<lparr>read := (read ?p)[i := True]\<rparr>, Some v) \<and>
            parser_read_list_of_strings ?p n =
              Inr (?p\<lparr>read := (read ?p)[i := True]\<rparr>, Some (split_commas v)) \<and>
            (\<forall>k. parse_int v = Some k \<longrightarrow>
               parser_read_int ?p n = Inr (?p\<lparr>read := (read ?p)[i := True]\<rparr>, Some k)) \<and>
            (\<forall>ks. parse_list parse_int v = Some ks \<longrightarrow>
               parser_read_list_of_integers ?p n =
                 Inr (?p\<lparr>read := (read ?p)[i := True]\<rparr>, Some ks)) \<and>
            (\<forall>x. strtod v = Some x \<longrightarrow>
               parser_read_double strtod ?p n =
                 Inr (?p\<lparr>read := (read ?p)[i := True]\<rparr>, Some x)) \<and>
            (\<forall>xs. parse_list strtod v = Some xs \<longrightarrow>
               parser_read_list_of_doubles strtod ?p n =
                 Inr (?p\<lparr>read := (read ?p)[i := True]\<rparr>, Some xs))"
      by (rule exI [of _ i])
  qed
  have B: "\<forall>n' ns. n' \<in> fst ` set base \<and> n' \<notin> fst ` set ovr \<and> n' \<notin> set ns \<longrightarrow>
         (\<exists>j. find_name (name (lookups ?p ns)) n' = Some j \<and>
            \<not> read (lookups ?p ns) ! j \<and>
            n' \<in> set (unread_entries (lookups ?p ns)))"
    using overlay_base_only [OF base, of _ _ ovr] by blast
  show ?thesis
    by (rule exI [of _ ?p]) (intro conjI r A B)
qed

text \<open>
  The scenario of the spec: the base sets a truncation order to 4 and another to 3, the
  override sets the first to 6. After the overlay the lookups of the first return 6 and
  its entry is flagged as overwritten; the second, never looked up, is reported as never
  consulted. The first part holds as well when the base has no other entry.
\<close>

theorem configuration_overlay_witness:
  "(\<exists>b ov pfc i j. parser_read_file ''base.ini'' ex_base = Inr b \<and>
      parser_read_file ''run.ini'' ex_override = Inr ov \<and>
      parser_overlay b ov = Inr pfc \<and>
      find_name (name pfc) ''l_max_g'' = Some i \<and> overwritten pfc ! i \<and>
      ''l_max_g'' \<in> set (overwritten_entries pfc) \<and>
      parser_read_string pfc ''l_max_g'' =
        Inr (pfc\<lparr>read := (read pfc)[i := True]\<rparr>, Some ''6'') \<and>
      parser_read_int pfc ''l_max_g'' = Inr (pfc\<lparr>read := (read pfc)[i := True]\<rparr>, Some 6) \<and>
      parser_read_list_of_integers pfc ''l_max_g'' =
        Inr (pfc\<lparr>read := (read pfc)[i := True]\<rparr>, Some [6]) \<and>
      find_name (name (lookups pfc [''l_max_g''])) ''l_max_ur'' = Some j \<and>
      \<not> read (lookups pfc [''l_max_g'']) ! j \<and>
      ''l_max_ur'' \<in> set (unread_entries (lookups pfc [''l_max_g'']))) \<and>
   (\<exists>b ov pfc i. parser_read_file ''base.ini'' ex_single = Inr b \<and>
      parser_read_file ''run.ini'' ex_override = Inr ov \<and>
      parser_overlay b ov = Inr pfc \<and>
      find_name (name pfc) ''l_max_g'' = Some i \<and> overwritten pfc ! i \<and>
      ''l_max_g'' \<in> set (overwritten_entries pfc) \<and>
      parser_read_int pfc ''l_max_g'' = Inr (pfc\<lparr>read := (read pfc)[i := True]\<rparr>, Some 6))"
proof -
  have p: "parse_int ''6'' = Some 6" "parse_list parse_int ''6'' = Some [6]"
    by (simp_all add: parse_list_def parse_int_def digit_def c_int_def INT_MIN_def INT_MAX_def)
  obtain b where b: "parser_read_file ''base.ini'' ex_base = Inr b"
    by (simp add: parser_read_file_def ex_base_def fits_def ARGUMENT_LENGTH_MAX_def)
  obtain b' where b': "parser_read_file ''base.ini'' ex_single = Inr b'"
    by (simp add: parser_read_file_def ex_single_def fits_def ARGUMENT_LENGTH_MAX_def)
  obtain ov where ov: "parser_read_file ''run.ini'' ex_override = Inr ov"
    by (simp add: parser_read_file_def ex_override_def fits_def ARGUMENT_LENGTH_MAX_def)
  have g: "''l_max_g'' \<in> fst ` set ex_base \<and> map_of (rev ex_override) ''l_max_g'' = Some ''6''"
    by (simp add: ex_base_def ex_override_def)
  have u: "''l_max_ur'' \<in> fst ` set ex_base \<and> ''l_max_ur'' \<notin> fst ` set ex_override \<and>
      ''l_max_ur'' \<notin> set [''l_max_g'']"
    by (simp add: ex_base_def ex_override_def)
  have g': "''l_max_g'' \<in> fst ` set ex_single \<and>
      map_of (rev ex_override) ''l_max_g'' = Some ''6''"
    by (simp add: ex_single_def ex_override_def)
  from configuration_overlay [OF b ov, where strtod = "\<lambda>a. None"]
  obtain pfc where r: "parser_overlay b ov = Inr pfc"
    and A: "\<forall>n v. n \<in> fst ` set ex_base \<and> map_of (rev ex_override) n = Some v \<longrightarrow>
         (\<exists>i. find_name (name pfc) n = Some i \<and> overwritten pfc ! i \<and>
            n \<in> set (overwritten_entries pfc) \<and>
            parser_read_string pfc n = Inr (pfc\<lparr>read := (read pfc)[i := True]\<rparr>, Some v) \<and>
            parser_read_list_of_strings pfc n =
              Inr (pfc\<lparr>read := (read pfc)[i := True]\<rparr>, Some (split_commas v)) \<and>
            (\<forall>k. parse_int v = Some k \<longrightarrow>
               parser_read_int pfc n = Inr (pfc\<lparr>read := (read pfc)[i := True]\<rparr>, Some k)) \<and>
            (\<forall>ks. parse_list parse_int v = Some ks \<longrightarrow>
               parser_read_list_of_integers pfc n =
                 Inr (pfc\<lparr>read := (read pfc)[i := True]\<rparr>, Some ks)) \<and>
            (\<forall>x. (\<lambda>a. None) v = Some x \<longrightarrow>
               parser_read_double (\<lambda>a. None) pfc n =
                 Inr (pfc\<lparr>read := (read pfc)[i := True]\<rparr>, Some x)) \<and>
            (\<forall>xs. parse_list (\<lambda>a. None) v = Some xs \<longrightarrow>
               parser_read_list_of_doubles (\<lambda>a. None) pfc n =
                 Inr (pfc\<lparr>read := (read pfc)[i := True]\<rparr>, Some xs)))"
    and B: "\<forall>n' ns. n' \<in> fst ` set ex_base \<and> n' \<notin> fst ` set ex_override \<and> n' \<notin> set ns \<longrightarrow>
         (\<exists>j. find_name (name (lookups pfc ns)) n' = Some j \<and>
            \<not> read (lookups pfc ns) ! j \<and>
            n' \<in> set (unread_entries (lookups pfc ns)))"
    by (elim exE conjE) (rule that, assumption+)
  from A [rule_format, OF g] obtain i where i: "find_name (name pfc) ''l_max_g'' = Some i"
      "overwritten pfc ! i" "''l_max_g'' \<in> set (overwritten_entries pfc)"
      "parser_read_string pfc ''l_max_g'' =
         Inr (pfc\<lparr>read := (read pfc)[i := True]\<rparr>, Some ''6'')"
      "\<forall>k. parse_int ''6'' = Some k \<longrightarrow>
         parser_read_int pfc ''l_max_g'' = Inr (pfc\<lparr>read := (read pfc)[i := True]\<rparr>, Some k)"
      "\<forall>ks. parse_list parse_int ''6'' = Some ks \<longrightarrow>
         parser_read_list_of_integers pfc ''l_max_g'' =
           Inr (pfc\<lparr>read := (read pfc)[i := True]\<rparr>, Some ks)"
    by (elim exE conjE) (rule that, assumption+)
  from B [rule_format, OF u] obtain j where
    j: "find_name (name (lookups pfc [''l_max_g''])) ''l_max_ur'' = Some j"
      "\<not> read (lookups pfc [''l_max_g'']) ! j"
      "''l_max_ur'' \<in> set (unread_entries (lookups pfc [''l_max_g'']))"
    by (elim exE conjE) (rule that, assumption+)
  have one: "\<exists>b ov pfc i j. parser_read_file ''base.ini'' ex_base = Inr b \<and>
      parser_read_file ''run.ini'' ex_override = Inr ov \<and>
      parser_overlay b ov = Inr pfc \<and>
      find_name (name pfc) ''l_max_g'' = Some i \<and> overwritten pfc ! i \<and>
      ''l_max_g'' \<in> set (overwritten_entries pfc) \<and>
      parser_read_string pfc ''l_max_g'' =
        Inr (pfc\<lparr>read := (read pfc)[i := True]\<rparr>, Some ''6'') \<and>
      parser_read_int pfc ''l_max_g'' = Inr (pfc\<lparr>read := (read pfc)[i := True]\<rparr>, Some 6) \<and>
      parser_read_list_of_integers pfc ''l_max_g'' =
        Inr (pfc\<lparr>read := (read pfc)[i := True]\<rparr>, Some [6]) \<and>
      find_name (name (lookups pfc [''l_max_g''])) ''l_max_ur'' = Some j \<and>
      \<not> read (lookups pfc [''l_max_g'']) ! j \<and>
      ''l_max_ur'' \<in> set (unread_entries (lookups pfc [''l_max_g'']))"
    by (intro exI [of _ b] exI [of _ ov] exI [of _ pfc] exI [of _ i] exI [of _ j] conjI
        b ov r i(1,2,3,4) i(5) [rule_format, OF p(1)] i(6) [rule_format, OF p(2)] j)
  from configuration_overlay [OF b' ov, where strtod = "\<lambda>a. None"]
  obtain pfc' where r': "parser_overlay b' ov = Inr pfc'"
    and A': "\<forall>n v. n \<in> fst ` set ex_single \<and> map_of (rev ex_override) n = Some v \<longrightarrow>
         (\<exists>i. find_name (name pfc') n = Some i \<and> overwritten pfc' ! i \<and>
            n \<in> set (overwritten_entries pfc') \<and>
            parser_read_string pfc' n = Inr (pfc'\<lparr>read := (read pfc')[i := True]\<rparr>, Some v) \<and>
            parser_read_list_of_strings pfc' n =
              Inr (pfc'\<lparr>read := (read pfc')[i := True]\<rparr>, Some (split_commas v)) \<and>
            (\<forall>k. parse_int v = Some k \<longrightarrow>
               parser_read_int pfc' n = Inr (pfc'\<lparr>read := (read pfc')[i := True]\<rparr>, Some k)) \<and>
            (\<forall>ks. parse_list parse_int v = Some ks \<longrightarrow>
               parser_read_list_of_integers pfc' n =
                 Inr (pfc'\<lparr>read := (read pfc')[i := True]\<rparr>, Some ks)) \<and>
            (\<forall>x. (\<lambda>a. None) v = Some x \<longrightarrow>
               parser_read_double (\<lambda>a. None) pfc' n =
                 Inr (pfc'\<lparr>read := (read pfc')[i := True]\<rparr>, Some x)) \<and>
            (\<forall>xs. parse_list (\<lambda>a. None) v = Some xs \<longrightarrow>
               parser_read_list_of_doubles (\<lambda>a. None) pfc' n =
                 Inr (pfc'\<lparr>read := (read pfc')[i := True]\<rparr>, Some xs)))"
    by (elim exE conjE) (rule that, assumption+)
  from A' [rule_format, OF g'] obtain i' where i': "find_name (name pfc') ''l_max_g'' = Some i'"
      "overwritten pfc' ! i'" "''l_max_g'' \<in> set (overwritten_entries pfc')"
      "\<forall>k. parse_int ''6'' = Some k \<longrightarrow>
         parser_read_int pfc' ''l_max_g'' =
           Inr (pfc'\<lparr>read := (read pfc')[i' := True]\<rparr>, Some k)"
    by (elim exE conjE) (rule that, assumption+)
  have two: "\<exists>b ov pfc i. parser_read_file ''base.ini'' ex_single = Inr b \<and>
      parser_read_file ''run.ini'' ex_override = Inr ov \<and>
      parser_overlay b ov = Inr pfc \<and>
      find_name (name pfc) ''l_max_g'' = Some i \<and> overwritten pfc ! i \<and>
      ''l_max_g'' \<in> set (overwritten_entries pfc) \<and>
      parser_read_int pfc ''l_max_g'' = Inr (pfc\<lparr>read := (read pfc)[i := True]\<rparr>, Some 6)"
    by (intro exI [of _ b'] exI [of _ ov] exI [of _ pfc'] exI [of _ i'] conjI
        b' ov r' i'(1,2,3) i'(4) [rule_format, OF p(1)])
  from one two show ?thesis by (rule conjI)
qed

end
